theory Spec2Isabelle
  imports Complex_Main "HOL-Library.Multiset" "HOL-Library.Log_Nat"
begin

section \<open>JavaScript numbers\<close>

text \<open>
  A JavaScript Number is an IEEE 754 binary64 value. A finite Number is modelled by the
  rational it denotes, and every arithmetic operation is the exact operation followed by
  rounding to the nearest binary64 value, ties to even (\<open>toDouble\<close>). The rounding covers
  the normal range only (53-bit significand, unbounded exponent): overflow to Infinity,
  subnormals and NaN are not modelled. All values that occur below (counts up to \<open>2^53\<close>,
  ratios in \<open>[0,1]\<close>, delays of a few seconds, token balances) lie in the normal range.
\<close>

definition pow2 :: "int \<Rightarrow> rat" where
  "pow2 e = 2 powi e"

text \<open>\<open>ilog2 x\<close> is the binary exponent of a positive rational: \<open>2^(ilog2 x) \<le> x < 2^(ilog2 x + 1)\<close>.\<close>

definition ilog2 :: "rat \<Rightarrow> int" where
  "ilog2 x = (let (p, q) = quotient_of x;
                  k = bitlen p - bitlen q
              in if pow2 k \<le> x then k else k - 1)"

definition roundTiesToEven :: "rat \<Rightarrow> int" where
  "roundTiesToEven q = (let f = \<lfloor>q\<rfloor>; d = q - of_int f
     in if d < 1 / 2 then f else if 1 / 2 < d then f + 1 else if even f then f else f + 1)"

definition toDouble :: "rat \<Rightarrow> rat" where
  "toDouble x = (if x = 0 then 0 else
     let a = \<bar>x\<bar>; e = ilog2 a - 52
     in sgn x * of_int (roundTiesToEven (a / pow2 e)) * pow2 e)"

definition jsAdd :: "rat \<Rightarrow> rat \<Rightarrow> rat" where
  "jsAdd a b = toDouble (a + b)"

definition jsSub :: "rat \<Rightarrow> rat \<Rightarrow> rat" where
  "jsSub a b = toDouble (a - b)"

definition jsMul :: "rat \<Rightarrow> rat \<Rightarrow> rat" where
  "jsMul a b = toDouble (a * b)"

definition jsDiv :: "rat \<Rightarrow> rat \<Rightarrow> rat" where
  "jsDiv a b = toDouble (a / b)"

text \<open>\<open>Math.floor\<close> of a finite Number, as an integer.\<close>

definition mathFloor :: "rat \<Rightarrow> int" where
  "mathFloor x = \<lfloor>x\<rfloor>"


section \<open>Read/write split of a batch\<close>

text \<open>
  \<open>runBatchTest\<close> and \<open>runOptimizedBatchTest\<close>, blend mode:
  \<^verbatim>\<open>numWrites = Math.floor(batchSize * (1 - readRatio));\<close>
  \<^verbatim>\<open>numReads = batchSize - numWrites;\<close>
  The result is the pair \<open>(numReads, numWrites)\<close>.
\<close>

definition blendCounts :: "int \<Rightarrow> rat \<Rightarrow> int \<times> int" where
  "blendCounts batchSize readRatio =
     (let numWrites = mathFloor (jsMul (of_int batchSize) (jsSub 1 readRatio));
          numReads = mathFloor (jsSub (of_int batchSize) (of_int numWrites))
      in (numReads, numWrites))"

text \<open>
  \<open>main\<close> of \<^verbatim>\<open>performanceTest_madara_v081.js\<close> (the raw-RPC script):
  \<^verbatim>\<open>const numReads = Math.max(1, Math.floor(batchSize * readRatio));\<close>
  \<^verbatim>\<open>const numWrites = Math.max(1, Math.floor(batchSize * (1 - readRatio)));\<close>
\<close>

definition rawRpcCounts :: "int \<Rightarrow> rat \<Rightarrow> int \<times> int" where
  "rawRpcCounts batchSize readRatio =
     (let numReads = max 1 (mathFloor (jsMul (of_int batchSize) readRatio));
          numWrites = max 1 (mathFloor (jsMul (of_int batchSize) (jsSub 1 readRatio)))
      in (numReads, numWrites))"


section \<open>Errors and string tests\<close>

text \<open>
  A thrown JavaScript error, as far as the scripts inspect it: its \<open>name\<close> and
  \<open>message\<close> (from which \<open>err.toString()\<close> is built) and the optional
  \<open>err.baseError.code\<close> of the RPC library.
\<close>

record jsError =
  errName :: string
  message :: string
  baseErrorCode :: "int option"

text \<open>\<open>Error.prototype.toString\<close>.\<close>

definition errToString :: "jsError \<Rightarrow> string" where
  "errToString e =
     (if errName e = [] then message e
      else if message e = [] then errName e
      else errName e @ '': '' @ message e)"

text \<open>\<open>String.prototype.includes\<close>: \<open>includes_str s t\<close> holds when \<open>t\<close> occurs in \<open>s\<close>.\<close>

fun includes_str :: "string \<Rightarrow> string \<Rightarrow> bool" where
  "includes_str [] t = (t = [])"
| "includes_str (c # s) t = (take (length t) (c # s) = t \<or> includes_str s t)"

text \<open>\<open>new Error(msg)\<close>.\<close>

definition newError :: "string \<Rightarrow> jsError" where
  "newError msg = \<lparr>errName = ''Error'', message = msg, baseErrorCode = None\<rparr>"


section \<open>Shuffling the operation tags\<close>

datatype opType = ReadOp | WriteOp

text \<open>
  \<^verbatim>\<open>const opTypes = Array(numReads).fill('read').concat(Array(numWrites).fill('write'));\<close>
  \<^verbatim>\<open>opTypes.sort(() => Math.random() - 0.5);\<close>

  \<open>Array.prototype.sort\<close> belongs to the JavaScript engine, not to the repository. It
  is modelled as an insertion sort that calls the comparator once per comparison and
  places the new element before the first element it compares below (a negative
  comparator result). The comparator of the scripts ignores its arguments and returns
  \<open>Math.random() - 0.5\<close>; \<open>rnd k\<close> is the result of the \<open>k\<close>-th call of
  \<open>Math.random()\<close>, and the counter of calls is threaded through.
\<close>

definition randomComparator :: "rat \<Rightarrow> rat" where
  "randomComparator u = jsSub u (1 / 2)"

fun sortInsert :: "(nat \<Rightarrow> rat) \<Rightarrow> nat \<Rightarrow> 'a \<Rightarrow> 'a list \<Rightarrow> 'a list \<times> nat" where
  "sortInsert rnd k x [] = ([x], k)"
| "sortInsert rnd k x (y # ys) =
     (if randomComparator (rnd k) < 0 then (x # y # ys, Suc k)
      else (case sortInsert rnd (Suc k) x ys of (zs, k') \<Rightarrow> (y # zs, k')))"

fun arraySort :: "(nat \<Rightarrow> rat) \<Rightarrow> nat \<Rightarrow> 'a list \<Rightarrow> 'a list \<times> nat" where
  "arraySort rnd k [] = ([], k)"
| "arraySort rnd k (x # xs) =
     (case arraySort rnd k xs of (ys, k') \<Rightarrow> sortInsert rnd k' x ys)"

definition buildOpTypes :: "(nat \<Rightarrow> rat) \<Rightarrow> nat \<Rightarrow> nat \<Rightarrow> opType list" where
  "buildOpTypes rnd numReads numWrites =
     fst (arraySort rnd 0 (replicate numReads ReadOp @ replicate numWrites WriteOp))"


section \<open>Retry with exponential backoff\<close>

text \<open>
  \<^verbatim>\<open>const isRateLimit = err.toString().includes('Rate limit reached') ||\<close>
  \<^verbatim>\<open>    err.toString().includes('-32097') ||\<close>
  \<^verbatim>\<open>    (err.baseError && err.baseError.code === -32097);\<close>
\<close>

definition isRateLimit :: "jsError \<Rightarrow> bool" where
  "isRateLimit err =
     (includes_str (errToString err) ''Rate limit reached''
      \<or> includes_str (errToString err) ''-32097''
      \<or> baseErrorCode err = Some (- 32097))"

text \<open>\<^verbatim>\<open>if (isRateLimit && attempt < maxRetries - 1)\<close>\<close>

definition shouldRetry :: "jsError \<Rightarrow> nat \<Rightarrow> nat \<Rightarrow> bool" where
  "shouldRetry err attempt maxRetries =
     (isRateLimit err \<and> int attempt < int maxRetries - 1)"

text \<open>
  \<^verbatim>\<open>const delay = baseDelay * Math.pow(2, attempt) + Math.random() * 1000;\<close>
  in milliseconds; \<open>u\<close> is the value returned by \<open>Math.random()\<close>.
\<close>

definition backoffDelay :: "rat \<Rightarrow> nat \<Rightarrow> rat \<Rightarrow> rat" where
  "backoffDelay baseDelay attempt u =
     jsAdd (jsMul baseDelay (2 ^ attempt)) (jsMul u 1000)"






section \<open>JavaScript strings and BigInts\<close>

text \<open>
  The nonce of an account reaches the scripts as the value the RPC library returns for
  \<open>getNonce\<close>, a hexadecimal string such as \<open>'0x3'\<close>; the scripts also use the BigInt
  \<open>0n\<close> in its place. Where such a value is used without conversion, it is a string or
  a BigInt.
\<close>

datatype jsValue = JsString string | JsBigInt int

text \<open>\<open>BigInt.prototype.toString\<close>: the decimal digits, with a minus sign if negative.\<close>

definition digitChar :: "nat \<Rightarrow> char" where
  "digitChar d = ''0123456789'' ! d"

function decimal :: "nat \<Rightarrow> string" where
  "decimal n = (if n < 10 then [digitChar n] else decimal (n div 10) @ [digitChar (n mod 10)])"
  by pat_completeness auto
termination
  by (relation "measure (\<lambda>n. n)") auto

declare decimal.simps [simp del]

definition bigintToString :: "int \<Rightarrow> string" where
  "bigintToString i = (if i < 0 then CHR ''-'' # decimal (nat (- i)) else decimal (nat i))"

text \<open>
  \<open>v + n\<close> for a BigInt \<open>n\<close>: the sum if \<open>v\<close> is a BigInt; if \<open>v\<close> is a string, \<open>n\<close> is
  converted to a string and appended (\<open>'0x3' + 0n\<close> is \<open>'0x30'\<close>).
\<close>

definition jsPlusBigInt :: "jsValue \<Rightarrow> int \<Rightarrow> jsValue" where
  "jsPlusBigInt v n =
     (case v of
        JsString s \<Rightarrow> JsString (s @ bigintToString n)
      | JsBigInt m \<Rightarrow> JsBigInt (m + n))"

text \<open>\<open>v || d\<close>: the empty string and \<open>0n\<close> are falsy.\<close>

definition jsOr :: "jsValue \<Rightarrow> jsValue \<Rightarrow> jsValue" where
  "jsOr v d = (if v = JsString [] \<or> v = JsBigInt 0 then d else v)"

text \<open>
  \<open>StringToBigInt\<close>: white space is trimmed; the empty string is \<open>0n\<close>; a decimal
  numeral may carry a sign; \<open>0x\<close>, \<open>0o\<close> and \<open>0b\<close> introduce hexadecimal, octal and binary
  digits; anything else is not a BigInt (\<open>None\<close>). Strings are lists of 8-bit
  characters, so only the white space among those is known here.
\<close>

definition isWhiteSpace :: "char \<Rightarrow> bool" where
  "isWhiteSpace c = ((of_char c :: nat) \<in> {9, 10, 11, 12, 13, 32, 160})"

definition trim :: "string \<Rightarrow> string" where
  "trim s = rev (dropWhile isWhiteSpace (rev (dropWhile isWhiteSpace s)))"

definition digitValue :: "char \<Rightarrow> nat option" where
  "digitValue c =
     (let k = (of_char c :: nat)
      in if 48 \<le> k \<and> k \<le> 57 then Some (k - 48)
         else if 97 \<le> k \<and> k \<le> 102 then Some (k - 87)
         else if 65 \<le> k \<and> k \<le> 70 then Some (k - 55)
         else None)"

fun parseDigits :: "nat \<Rightarrow> nat \<Rightarrow> string \<Rightarrow> nat option" where
  "parseDigits radix a [] = Some a"
| "parseDigits radix a (c # s) =
     (case digitValue c of
        None \<Rightarrow> None
      | Some d \<Rightarrow> if d < radix then parseDigits radix (a * radix + d) s else None)"

definition parseNumeral :: "nat \<Rightarrow> string \<Rightarrow> nat option" where
  "parseNumeral radix s = (if s = [] then None else parseDigits radix 0 s)"

definition stringToBigInt :: "string \<Rightarrow> int option" where
  "stringToBigInt s =
     (case trim s of
        [] \<Rightarrow> Some 0
      | c # r \<Rightarrow>
          if c = CHR ''0'' \<and> r \<noteq> [] \<and> hd r \<in> set ''xX'' then
            map_option int (parseNumeral 16 (tl r))
          else if c = CHR ''0'' \<and> r \<noteq> [] \<and> hd r \<in> set ''oO'' then
            map_option int (parseNumeral 8 (tl r))
          else if c = CHR ''0'' \<and> r \<noteq> [] \<and> hd r \<in> set ''bB'' then
            map_option int (parseNumeral 2 (tl r))
          else if c = CHR ''-'' then map_option (\<lambda>n. - int n) (parseNumeral 10 r)
          else if c = CHR ''+'' then map_option int (parseNumeral 10 r)
          else map_option int (parseNumeral 10 (c # r)))"

text \<open>Strings are compared code unit by code unit; a proper prefix is smaller.\<close>

fun stringLess :: "string \<Rightarrow> string \<Rightarrow> bool" where
  "stringLess [] [] = False"
| "stringLess [] (d # t) = True"
| "stringLess (c # s) [] = False"
| "stringLess (c # s) (d # t) =
     ((of_char c :: nat) < of_char d \<or> (c = d \<and> stringLess s t))"

text \<open>
  \<open>a > b\<close>: two strings are compared as strings, two BigInts as integers; a string
  compared with a BigInt is converted by \<open>StringToBigInt\<close>, and the comparison is false
  if it is not a BigInt.
\<close>

fun jsGreater :: "jsValue \<Rightarrow> jsValue \<Rightarrow> bool" where
  "jsGreater (JsString a) (JsString b) = stringLess b a"
| "jsGreater (JsBigInt a) (JsBigInt b) = (b < a)"
| "jsGreater (JsString a) (JsBigInt b) =
     (case stringToBigInt a of None \<Rightarrow> False | Some n \<Rightarrow> b < n)"
| "jsGreater (JsBigInt a) (JsString b) =
     (case stringToBigInt b of None \<Rightarrow> False | Some n \<Rightarrow> n < a)"


section \<open>Accounts, remote calls and the precondition checks\<close>

record account =
  address :: string
  privateKey :: string

text \<open>
  The calls the scripts send to the remote ledger, with the arguments that matter here.
  A bundle of calls is the list of the \<open>new_balance\<close> values it writes
  (\<^verbatim>\<open>contractLocal.populate('update_and_get', { new_balance: { low: BigInt(idx + 1), high: 0n } })\<close>).
  \<open>Execute\<close> is \<^verbatim>\<open>account.execute(calls, undefined, { maxFee, nonce: BigInt(currentNonce), version: 1n })\<close>,
  \<open>ExecuteRaw\<close> is \<^verbatim>\<open>account.execute(calls, undefined, { maxFee, nonce: currentNonce })\<close>, where the
  nonce is passed on as it is.
\<close>

datatype remoteCall =
    GetNonce string
  | BalanceOf string
  | CallGetBalance string
  | EstimateInvokeFee string "int list"
  | Execute string "int list" int
  | ExecuteRaw string "int list" jsValue
  | WaitForTransaction string
  | EstimateBatchInfo
  | ExecuteBatchInfo

text \<open>A batch operation is a contract read or anything that prepares or submits a write.\<close>

fun isBatchOperation :: "remoteCall \<Rightarrow> bool" where
  "isBatchOperation (CallGetBalance a) = True"
| "isBatchOperation (EstimateInvokeFee a calls) = True"
| "isBatchOperation (Execute a calls n) = True"
| "isBatchOperation (ExecuteRaw a calls n) = True"
| "isBatchOperation c = False"

text \<open>
  \<open>checkAccountExists\<close>: the account exists unless \<open>getNonce\<close> throws an error whose
  message contains \<open>Contract not found\<close>. The argument is the outcome of \<open>getNonce\<close>.
\<close>

definition checkAccountExists :: "jsError + int \<Rightarrow> bool" where
  "checkAccountExists reply =
     (case reply of
        Inr nonce \<Rightarrow> True
      | Inl err \<Rightarrow> \<not> (message err \<noteq> [] \<and> includes_str (message err) ''Contract not found''))"

text \<open>
  \<open>getStrkBalance\<close>: the token contract returns the balance as two 128-bit limbs;
  \<^verbatim>\<open>const balance = (balanceHigh << 128n) + balanceLow; return Number(balance) / 1e18;\<close>
\<close>

definition getStrkBalance :: "int \<times> int \<Rightarrow> rat" where
  "getStrkBalance result =
     (let balanceLow = fst result; balanceHigh = snd result;
          balance = balanceHigh * 2 ^ 128 + balanceLow
      in jsDiv (toDouble (of_int balance)) (10 ^ 18))"

definition MIN_BALANCE :: rat where
  "MIN_BALANCE = toDouble (1 / 20)"

text \<open>
  \<open>Promise.all\<close> over the replies of a list of calls: the list of values, or the error
  of a failed call. When several calls fail, JavaScript reports the rejection that
  arrives first; the model reports the one of the smallest index.
\<close>

fun promiseAll :: "(jsError + 'a) list \<Rightarrow> jsError + 'a list" where
  "promiseAll [] = Inr []"
| "promiseAll (Inl err # rs) = Inl err"
| "promiseAll (Inr v # rs) = (case promiseAll rs of Inl err \<Rightarrow> Inl err | Inr vs \<Rightarrow> Inr (v # vs))"

text \<open>
  The accounts that pass the deployment check of \<open>runBatchTest\<close> (Madara variant):
  \<open>nonceReply i\<close> is the outcome of \<open>getNonce\<close> for the \<open>i\<close>-th account.
\<close>

definition deployedAccounts :: "(nat \<Rightarrow> jsError + int) \<Rightarrow> account list \<Rightarrow> account list" where
  "deployedAccounts nonceReply accs =
     map snd (filter (\<lambda>(i, acc). checkAccountExists (nonceReply i)) (enumerate 0 accs))"

text \<open>
  \<^verbatim>\<open>const sufficientOps = testAccounts.map((acc, i) => sufficientAccountsLimit(async () => {\<close>
  \<^verbatim>\<open>    const bal = await getStrkBalance(acc.address, i);\<close>
  \<^verbatim>\<open>    return bal >= MIN_BALANCE ? acc : null; }));\<close>
  \<^verbatim>\<open>let sufficientAccounts = (await Promise.all(sufficientOps)).filter(Boolean);\<close>
  \<open>balanceReply i\<close> is the outcome of the \<open>balance_of\<close> call for the \<open>i\<close>-th account.
\<close>

definition sufficientAccounts ::
  "(nat \<Rightarrow> jsError + int \<times> int) \<Rightarrow> account list \<Rightarrow> jsError + account list" where
  "sufficientAccounts balanceReply accs =
     (case promiseAll (map balanceReply [0..<length accs]) of
        Inl err \<Rightarrow> Inl err
      | Inr results \<Rightarrow>
          Inr (map snd (filter (\<lambda>(result, acc). MIN_BALANCE \<le> getStrkBalance result)
                          (zip results accs))))"

definition noDeployedAccounts :: jsError where
  "noDeployedAccounts =
     newError ''No deployed accounts found on Madara. Please deploy account contracts first.''"

definition noSufficientBalance :: jsError where
  "noSufficientBalance =
     newError ''No accounts have sufficient balance. Please fund them manually.''"

text \<open>
  The precondition checks at the head of \<open>runBatchTest\<close> in the Sepolia variant and of
  \<open>runOptimizedBatchTest\<close>: the accounts to use and the batch size to use.
  \<^verbatim>\<open>if (sufficientAccounts.length === 0) { throw new Error('No accounts have ...'); }\<close>
  \<^verbatim>\<open>if (sufficientAccounts.length < batchSize) {\<close>
  \<^verbatim>\<open>    console.warn(`Only ... Adjusting batchSize to ...`);\<close>
  \<^verbatim>\<open>    batchSize = sufficientAccounts.length; }\<close>
\<close>

definition precheckSepolia ::
  "(nat \<Rightarrow> jsError + int \<times> int) \<Rightarrow> account list \<Rightarrow> int \<Rightarrow> jsError + account list \<times> int" where
  "precheckSepolia balanceReply accs batchSize =
     (case sufficientAccounts balanceReply accs of
        Inl err \<Rightarrow> Inl err
      | Inr sufficient \<Rightarrow>
          if length sufficient = 0 then Inl noSufficientBalance
          else if int (length sufficient) < batchSize then Inr (sufficient, int (length sufficient))
          else Inr (sufficient, batchSize))"

text \<open>
  The Madara variant checks deployment first and keeps the batch size
  (\<^verbatim>\<open>// Accounts will be reused if batchSize > account count\<close>).
\<close>

definition precheckMadara ::
  "(nat \<Rightarrow> jsError + int) \<Rightarrow> (nat \<Rightarrow> jsError + int \<times> int) \<Rightarrow> account list
     \<Rightarrow> jsError + account list" where
  "precheckMadara nonceReply balanceReply accs =
     (let deployed = deployedAccounts nonceReply accs in
      if length deployed = 0 then Inl noDeployedAccounts
      else (case sufficientAccounts balanceReply deployed of
              Inl err \<Rightarrow> Inl err
            | Inr sufficient \<Rightarrow>
                if length sufficient = 0 then Inl noSufficientBalance else Inr sufficient))"

text \<open>The remote calls the Madara precondition checks send.\<close>

definition precheckCalls :: "(nat \<Rightarrow> jsError + int) \<Rightarrow> account list \<Rightarrow> remoteCall list" where
  "precheckCalls nonceReply accs =
     (let deployed = deployedAccounts nonceReply accs in
      map (\<lambda>acc. GetNonce (address acc)) accs
      @ (if length deployed = 0 then [] else map (\<lambda>acc. BalanceOf (address acc)) deployed))"


section \<open>Blend mode: dispatching the operations\<close>

text \<open>
  The operations of a batch run concurrently: each is an asynchronous closure handed to
  the limiter, and the closures share the variables \<open>opIndex\<close>, \<open>sentCount\<close>,
  \<open>writeTxHashes\<close> and \<open>failedWrites\<close>. JavaScript runs a closure without interruption
  between two \<open>await\<close>s, so a run is a sequence of events, each the arrival of the reply
  to one pending remote call (or the end of one backoff sleep), and each event runs the
  closure of that operation up to its next \<open>await\<close>. The order of the events and the
  replies are chosen by the environment.
\<close>

datatype opResult = ReadResult int | WriteResult string

text \<open>
  Where an operation stands: waiting in the limiter's queue, waiting for the reply to a
  remote call (the read call at retry attempt \<open>k\<close>, the fee estimate, the nonce fetch,
  the submission with the nonce it was given), sleeping in a backoff, or settled.
  \<open>Resolved None\<close> is the closure returning \<open>null\<close>.
\<close>

datatype stage =
    Queued
  | AwaitRead nat
  | Backoff nat
  | AwaitEstimate
  | AwaitNonce
  | AwaitExecute int
  | Resolved "opResult option"
  | Rejected jsError

record task =
  tStage :: stage
  accObj :: account
  provIdx :: nat
  bundleCalls :: "int list"
  maxFee :: int

record failedWrite =
  fwAccount :: account
  fwBundleCalls :: "int list"
  fwProvIdx :: nat

datatype logEntry =
    NonceErrorLogged string
  | SkippingAccount string jsError
  | ErrorInOp string opType jsError
  | RetryFailed string jsError

record config =
  testAccounts :: "account list"
  bundleSize :: nat
  numWrites :: int
  opTypes :: "opType list"
  concurrency :: nat
  numProviders :: nat
  mathRandom :: "nat \<Rightarrow> rat"

text \<open>
  Modelled from the spec: \<open>pLimit\<close> is imported from the npm package p-limit, which is
  not among the sources. The spec describes it as a counting semaphore (work pool):
  \<open>limit(fn)\<close> appends \<open>fn\<close> to a FIFO queue and, in a microtask, starts the head of the
  queue if fewer than \<open>concurrency\<close> closures are active (\<open>tryStart\<close>); when an active
  closure settles, the counter is decremented and the head of the queue, if any, is
  started (\<open>pLimitNext\<close>). Both return the closure to start, if any, and the new
  limiter. Closures are named by their index.
\<close>

record limiter =
  limit :: nat
  queue :: "nat list"
  activeCount :: nat

definition pLimit :: "nat \<Rightarrow> nat \<Rightarrow> limiter" where
  "pLimit c n = \<lparr>limit = c, queue = [0..<n], activeCount = 0\<rparr>"

definition dequeue :: "limiter \<Rightarrow> nat option \<times> limiter" where
  "dequeue l =
     (case queue l of
        [] \<Rightarrow> (None, l)
      | b # q \<Rightarrow> (Some b, l\<lparr>queue := q, activeCount := activeCount l + 1\<rparr>))"

definition tryStart :: "limiter \<Rightarrow> nat option \<times> limiter" where
  "tryStart l = (if activeCount l < limit l then dequeue l else (None, l))"

definition pLimitNext :: "limiter \<Rightarrow> nat option \<times> limiter" where
  "pLimitNext l = dequeue (l\<lparr>activeCount := activeCount l - 1\<rparr>)"

record dispatch =
  tasks :: "task list"
  limiter :: limiter
  opIndex :: nat
  sentCount :: nat
  writeTxHashes :: "string list"
  failedWrites :: "failedWrite list"
  rejection :: "jsError option"
  issued :: "remoteCall list"
  console :: "logEntry list"
  slept :: "rat list"
  randomCalls :: nat

definition send :: "remoteCall \<Rightarrow> dispatch \<Rightarrow> dispatch" where
  "send c s = s\<lparr>issued := issued s @ [c]\<rparr>"

definition say :: "logEntry \<Rightarrow> dispatch \<Rightarrow> dispatch" where
  "say entry s = s\<lparr>console := console s @ [entry]\<rparr>"

definition setStage :: "nat \<Rightarrow> stage \<Rightarrow> dispatch \<Rightarrow> dispatch" where
  "setStage b st s = s\<lparr>tasks := (tasks s)[b := (tasks s ! b)\<lparr>tStage := st\<rparr>]\<rparr>"

text \<open>
  \<^verbatim>\<open>for (let j = 0; j < bundleSize; j++) {\<close>
  \<^verbatim>\<open>    const idx = sentCount * bundleSize + j;\<close>
  \<^verbatim>\<open>    if (idx >= numWrites) break;\<close>
  \<^verbatim>\<open>    bundleCalls.push(contractLocal.populate('update_and_get', { new_balance: { low: BigInt(idx + 1), high: 0n } })); }\<close>
\<close>

definition buildBundle :: "config \<Rightarrow> nat \<Rightarrow> int list" where
  "buildBundle cfg sent =
     map (\<lambda>j. int (sent * bundleSize cfg + j) + 1)
       (takeWhile (\<lambda>j. int (sent * bundleSize cfg + j) < numWrites cfg) [0..<bundleSize cfg])"

text \<open>
  The head of the closure of operation \<open>b\<close>, up to its first \<open>await\<close>: it takes the next
  account round-robin and either sends the read call (inside \<open>retryWithBackoff\<close>, attempt
  0) or builds its bundle from the current \<open>sentCount\<close> and asks for a fee estimate.
  The account pool is not empty here (the precondition checks have passed).
\<close>

definition startTask :: "config \<Rightarrow> nat \<Rightarrow> dispatch \<Rightarrow> dispatch" where
  "startTask cfg b s =
     (let type = opTypes cfg ! b;
          acc = testAccounts cfg ! (opIndex s mod length (testAccounts cfg));
          prov = b mod numProviders cfg;
          s1 = s\<lparr>opIndex := opIndex s + 1\<rparr>
      in case type of
           ReadOp \<Rightarrow>
             send (CallGetBalance (address acc))
               (s1\<lparr>tasks := (tasks s1)[b := \<lparr>tStage = AwaitRead 0, accObj = acc, provIdx = prov,
                                               bundleCalls = [], maxFee = 0\<rparr>]\<rparr>)
         | WriteOp \<Rightarrow>
             (let calls = buildBundle cfg (sentCount s1)
              in send (EstimateInvokeFee (address acc) calls)
                   (s1\<lparr>tasks := (tasks s1)[b := \<lparr>tStage = AwaitEstimate, accObj = acc,
                                                   provIdx = prov, bundleCalls = calls,
                                                   maxFee = 0\<rparr>]\<rparr>)))"

text \<open>Start the operation the limiter hands out, if any.\<close>

definition started :: "config \<Rightarrow> nat option \<times> limiter \<Rightarrow> dispatch \<Rightarrow> dispatch" where
  "started cfg r s =
     (case fst r of
        None \<Rightarrow> s\<lparr>limiter := snd r\<rparr>
      | Some b \<Rightarrow> startTask cfg b (s\<lparr>limiter := snd r\<rparr>))"

definition settled :: "config \<Rightarrow> dispatch \<Rightarrow> dispatch" where
  "settled cfg s = started cfg (pLimitNext (limiter s)) s"

definition emptyTask :: task where
  "emptyTask = \<lparr>tStage = Queued, accObj = \<lparr>address = [], privateKey = []\<rparr>, provIdx = 0,
                 bundleCalls = [], maxFee = 0\<rparr>"

text \<open>
  \<^verbatim>\<open>for (let b = 0; b < opTypes.length; b++) { ops.push(limit(async () => { ... })); }\<close>
  All operations are queued, then one \<open>tryStart\<close> microtask runs per queued operation.
\<close>

definition initDispatch :: "config \<Rightarrow> dispatch" where
  "initDispatch cfg =
     (let n = length (opTypes cfg);
          s0 = \<lparr>tasks = replicate n emptyTask, limiter = pLimit (concurrency cfg) n,
                opIndex = 0, sentCount = 0, writeTxHashes = [], failedWrites = [],
                rejection = None, issued = [], console = [], slept = [], randomCalls = 0\<rparr>
      in fold (\<lambda>op s. started cfg (tryStart (limiter s)) s) (opTypes cfg) s0)"

text \<open>An operation returns: its promise resolves and the limiter moves on.\<close>

definition resolveTask :: "config \<Rightarrow> nat \<Rightarrow> opResult option \<Rightarrow> dispatch \<Rightarrow> dispatch" where
  "resolveTask cfg b res s = settled cfg (setStage b (Resolved res) s)"

text \<open>
  The outer handler of the closure:
  \<^verbatim>\<open>} catch (err) { console.error(`Error in op for account ... (${type}):`, err); throw err; }\<close>
  The promise of the operation rejects; \<open>Promise.all(ops)\<close> rejects with the first
  rejection.
\<close>

definition rejectTask :: "config \<Rightarrow> nat \<Rightarrow> jsError \<Rightarrow> dispatch \<Rightarrow> dispatch" where
  "rejectTask cfg b err s =
     (let addr = address (accObj (tasks s ! b));
          s1 = say (ErrorInOp addr (opTypes cfg ! b) err) (setStage b (Rejected err) s);
          s2 = s1\<lparr>rejection := (case rejection s1 of None \<Rightarrow> Some err | Some first \<Rightarrow> Some first)\<rparr>
      in settled cfg s2)"

text \<open>
  The inner handler around the nonce fetch and the submission of a write:
  \<^verbatim>\<open>if (err.toString().includes('Invalid transaction nonce')) {\<close>
  \<^verbatim>\<open>    failedWrites.push({ account, bundleCalls, provIdx }); return null;\<close>
  \<^verbatim>\<open>} else if (err.toString().includes('Rate limit reached')) { throw err;\<close>
  \<^verbatim>\<open>} else { console.error(`Skipping account ...`, err); return null; }\<close>
\<close>

definition submitFailed :: "config \<Rightarrow> nat \<Rightarrow> jsError \<Rightarrow> dispatch \<Rightarrow> dispatch" where
  "submitFailed cfg b err s =
     (let t = tasks s ! b; addr = address (accObj t)
      in if includes_str (errToString err) ''Invalid transaction nonce'' then
           resolveTask cfg b None
             (say (NonceErrorLogged addr)
                (s\<lparr>failedWrites := failedWrites s
                      @ [\<lparr>fwAccount = accObj t, fwBundleCalls = bundleCalls t,
                           fwProvIdx = provIdx t\<rparr>]\<rparr>))
         else if includes_str (errToString err) ''Rate limit reached'' then rejectTask cfg b err s
         else resolveTask cfg b None (say (SkippingAccount addr err) s))"

text \<open>BigInt division truncates towards zero: \<^verbatim>\<open>estimated.overall_fee * 12n / 10n\<close>.\<close>

definition bigintDiv :: "int \<Rightarrow> int \<Rightarrow> int" where
  "bigintDiv a b = sgn a * sgn b * (\<bar>a\<bar> div \<bar>b\<bar>)"

datatype event =
    ReadReply nat "jsError + int"
  | BackoffElapsed nat
  | EstimateReply nat "jsError + int"
  | NonceReply nat "jsError + int"
  | ExecuteReply nat "jsError + string"

text \<open>
  One event. An event that does not answer what the operation is waiting for cannot
  happen (\<open>None\<close>). The read is wrapped in \<open>retryWithBackoff\<close> with its default
  arguments (3 attempts, base delay 1000 ms).
\<close>

fun step :: "config \<Rightarrow> event \<Rightarrow> dispatch \<Rightarrow> dispatch option" where
  "step cfg (ReadReply b reply) s =
     (if b < length (tasks s) then
        (case tStage (tasks s ! b) of
           AwaitRead attempt \<Rightarrow>
             (case reply of
                Inr v \<Rightarrow> Some (resolveTask cfg b (Some (ReadResult v)) s)
              | Inl err \<Rightarrow>
                  if shouldRetry err attempt 3 then
                    Some ((setStage b (Backoff attempt) s)
                            \<lparr>slept := slept s
                               @ [backoffDelay 1000 attempt (mathRandom cfg (randomCalls s))],
                             randomCalls := randomCalls s + 1\<rparr>)
                  else Some (rejectTask cfg b err s))
         | _ \<Rightarrow> None)
      else None)"
| "step cfg (BackoffElapsed b) s =
     (if b < length (tasks s) then
        (case tStage (tasks s ! b) of
           Backoff attempt \<Rightarrow>
             Some (send (CallGetBalance (address (accObj (tasks s ! b))))
                     (setStage b (AwaitRead (attempt + 1)) s))
         | _ \<Rightarrow> None)
      else None)"
| "step cfg (EstimateReply b reply) s =
     (if b < length (tasks s) then
        (case tStage (tasks s ! b) of
           AwaitEstimate \<Rightarrow>
             (case reply of
                Inr fee \<Rightarrow>
                  Some (send (GetNonce (address (accObj (tasks s ! b))))
                          (s\<lparr>tasks := (tasks s)[b := (tasks s ! b)
                                \<lparr>tStage := AwaitNonce, maxFee := bigintDiv (fee * 12) 10\<rparr>]\<rparr>))
              | Inl err \<Rightarrow> Some (rejectTask cfg b err s))
         | _ \<Rightarrow> None)
      else None)"
| "step cfg (NonceReply b reply) s =
     (if b < length (tasks s) then
        (case tStage (tasks s ! b) of
           AwaitNonce \<Rightarrow>
             (case reply of
                Inr currentNonce \<Rightarrow>
                  Some (send (Execute (address (accObj (tasks s ! b)))
                                (bundleCalls (tasks s ! b)) currentNonce)
                          (setStage b (AwaitExecute currentNonce) s))
              | Inl err \<Rightarrow> Some (submitFailed cfg b err s))
         | _ \<Rightarrow> None)
      else None)"
| "step cfg (ExecuteReply b reply) s =
     (if b < length (tasks s) then
        (case tStage (tasks s ! b) of
           AwaitExecute n \<Rightarrow>
             (case reply of
                Inr transaction_hash \<Rightarrow>
                  Some (resolveTask cfg b (Some (WriteResult transaction_hash))
                          (s\<lparr>writeTxHashes := writeTxHashes s @ [transaction_hash],
                             sentCount := sentCount s + 1\<rparr>))
              | Inl err \<Rightarrow> Some (submitFailed cfg b err s))
         | _ \<Rightarrow> None)
      else None)"

fun exec :: "config \<Rightarrow> event list \<Rightarrow> dispatch \<Rightarrow> dispatch option" where
  "exec cfg [] s = Some s"
| "exec cfg (ev # evs) s = (case step cfg ev s of None \<Rightarrow> None | Some s' \<Rightarrow> exec cfg evs s')"

fun isResolved :: "stage \<Rightarrow> bool" where
  "isResolved (Resolved res) = True"
| "isResolved st = False"

text \<open>\<open>await Promise.all(ops)\<close> returns once every operation has resolved.\<close>

definition allResolved :: "dispatch \<Rightarrow> bool" where
  "allResolved s = list_all (\<lambda>t. isResolved (tStage t)) (tasks s)"


section \<open>Blend mode: retrying the failed writes\<close>

text \<open>
  After \<open>Promise.all(ops)\<close> the writes that met a nonce error are retried one after the
  other:
  \<^verbatim>\<open>for (const { account, bundleCalls, provIdx } of failedWrites) { try {\<close>
  \<^verbatim>\<open>    const estimated = await account.estimateInvokeFee(bundleCalls);\<close>
  \<^verbatim>\<open>    const currentNonce = await account.getNonce('pending');\<close>
  \<^verbatim>\<open>    const executeResult = await account.execute(bundleCalls, undefined, { maxFee, nonce: BigInt(currentNonce), version: 1n });\<close>
  \<^verbatim>\<open>    writeTxHashes.push(executeResult.transaction_hash);\<close>
  \<^verbatim>\<open>} catch (err) { console.error(`Retry failed for account ..., noting as failed:`, err); } }\<close>
  The replies to the three calls of one retry are given together.
\<close>

record retryReplies =
  retryEstimate :: "jsError + int"
  retryNonce :: "jsError + int"
  retryExecute :: "jsError + string"

definition retryWrite :: "retryReplies \<Rightarrow> failedWrite \<Rightarrow> dispatch \<Rightarrow> dispatch" where
  "retryWrite r fw s =
     (let addr = address (fwAccount fw); calls = fwBundleCalls fw;
          s1 = send (EstimateInvokeFee addr calls) s
      in case retryEstimate r of
           Inl err \<Rightarrow> say (RetryFailed addr err) s1
         | Inr fee \<Rightarrow>
             (let s2 = send (GetNonce addr) s1
              in case retryNonce r of
                   Inl err \<Rightarrow> say (RetryFailed addr err) s2
                 | Inr currentNonce \<Rightarrow>
                     (let s3 = send (Execute addr calls currentNonce) s2
                      in case retryExecute r of
                           Inl err \<Rightarrow> say (RetryFailed addr err) s3
                         | Inr transaction_hash \<Rightarrow>
                             s3\<lparr>writeTxHashes := writeTxHashes s3 @ [transaction_hash]\<rparr>)))"

fun retryFailedWrites ::
  "(nat \<Rightarrow> retryReplies) \<Rightarrow> nat \<Rightarrow> failedWrite list \<Rightarrow> dispatch \<Rightarrow> dispatch" where
  "retryFailedWrites replies i [] s = s"
| "retryFailedWrites replies i (fw # fws) s =
     retryFailedWrites replies (Suc i) fws (retryWrite (replies i) fw s)"


section \<open>Read-write-read mode\<close>

text \<open>
  In rwr mode every customer (operation) submits one write. The balances and nonces of
  the accounts are read first; the calls of one account are sent together and the
  results stored under its address.
\<close>

record rwrRemote =
  prefetchBalance :: "nat \<Rightarrow> jsError + int"
  prefetchNonce :: "nat \<Rightarrow> jsError + jsValue"
  confirmReply :: "nat \<Rightarrow> jsError + (int \<times> int) option"
  finalBalanceReply :: "nat \<Rightarrow> jsError + int"

record prefetched =
  uniqueAccountBalances :: "string \<rightharpoonup> int"
  accountBaseNonces :: "string \<rightharpoonup> jsValue"
  accountNonceCounters :: "string \<rightharpoonup> nat"

text \<open>
  \<^verbatim>\<open>const [balanceResult, baseNonce] = await Promise.all([\<close>
  \<^verbatim>\<open>    contractLocal.call('get_balance', [accObj.address], ...), account.getNonce('latest')]);\<close>
  \<^verbatim>\<open>accountBaseNonces.set(accObj.address, baseNonce);\<close>
  and on any error the entries of the account are set to \<open>'0'\<close>, \<open>0n\<close>, \<open>0\<close>. The base
  nonce is stored as \<open>getNonce\<close> returned it.
\<close>

definition prefetchAccount :: "rwrRemote \<Rightarrow> nat \<Rightarrow> account \<Rightarrow> prefetched \<Rightarrow> prefetched" where
  "prefetchAccount env idx acc p =
     (case (prefetchBalance env idx, prefetchNonce env idx) of
        (Inr balanceResult, Inr baseNonce) \<Rightarrow>
          \<lparr>uniqueAccountBalances = (uniqueAccountBalances p)(address acc \<mapsto> balanceResult),
           accountBaseNonces = (accountBaseNonces p)(address acc \<mapsto> baseNonce),
           accountNonceCounters = (accountNonceCounters p)(address acc \<mapsto> 0)\<rparr>
      | _ \<Rightarrow>
          \<lparr>uniqueAccountBalances = (uniqueAccountBalances p)(address acc \<mapsto> 0),
           accountBaseNonces = (accountBaseNonces p)(address acc \<mapsto> JsBigInt 0),
           accountNonceCounters = (accountNonceCounters p)(address acc \<mapsto> 0)\<rparr>)"

fun prefetchAll :: "rwrRemote \<Rightarrow> nat \<Rightarrow> account list \<Rightarrow> prefetched \<Rightarrow> prefetched" where
  "prefetchAll env idx [] p = p"
| "prefetchAll env idx (acc # accs) p = prefetchAll env (Suc idx) accs (prefetchAccount env idx acc p)"

text \<open>
  The classification of a failed submission in rwr mode:
  \<^verbatim>\<open>const isNonceError = err.toString().includes('Invalid transaction nonce') || err.toString().includes('nonce') ||\<close>
  \<^verbatim>\<open>    err.toString().includes('NonceTooLow') || err.toString().includes('already exists');\<close>
  \<^verbatim>\<open>const isRateLimit = err.toString().includes('Rate limit reached') || err.toString().includes('-32097');\<close>
  \<^verbatim>\<open>const isServerError = err.toString().includes('Internal server error') || err.toString().includes('500') ||\<close>
  \<^verbatim>\<open>    (err.baseError && err.baseError.code === 500);\<close>
\<close>

definition isNonceError :: "jsError \<Rightarrow> bool" where
  "isNonceError err =
     (includes_str (errToString err) ''Invalid transaction nonce''
      \<or> includes_str (errToString err) ''nonce''
      \<or> includes_str (errToString err) ''NonceTooLow''
      \<or> includes_str (errToString err) ''already exists'')"

definition isRateLimitRwr :: "jsError \<Rightarrow> bool" where
  "isRateLimitRwr err =
     (includes_str (errToString err) ''Rate limit reached''
      \<or> includes_str (errToString err) ''-32097'')"

definition isServerError :: "jsError \<Rightarrow> bool" where
  "isServerError err =
     (includes_str (errToString err) ''Internal server error''
      \<or> includes_str (errToString err) ''500''
      \<or> baseErrorCode err = Some 500)"

text \<open>
  \<^verbatim>\<open>const delay = isRateLimit ? 100 * retryCount : isServerError ? 50 * retryCount : 25 * retryCount;\<close>
\<close>

definition rwrDelay :: "jsError \<Rightarrow> nat \<Rightarrow> nat" where
  "rwrDelay err retryCount =
     (if isRateLimitRwr err then 100 * retryCount
      else if isServerError err then 50 * retryCount
      else 25 * retryCount)"

record customer =
  customerId :: nat
  custAddress :: string
  initialBalance :: int
  txHash :: string

text \<open>
  The operations are closures handed to \<^verbatim>\<open>const limit = pLimit(concurrency);\<close> and run
  concurrently, as in blend mode; they share the nonce counters and the array of
  transaction hashes. Where an operation stands: in the limiter's queue, waiting for the
  fee estimate, waiting for the reply to the submission made while \<open>retryCount\<close> has the
  given value (with the nonce it was given), waiting for the fresh nonce after
  \<open>retryCount\<close> was incremented (the error of the failed submission decides the delay),
  sleeping before the next submission, or settled with the value it returned (\<open>None\<close>
  for \<open>null\<close>).
\<close>

datatype rwrStage =
    RwrQueued
  | RwrEstimating
  | RwrExecuting nat jsValue
  | RwrRefreshing nat jsError
  | RwrSleeping nat jsValue
  | RwrSettled "customer option"

record rwrTask =
  rStage :: rwrStage
  rAccount :: account
  rInitialValue :: int
  rOptimisticNonce :: jsValue
  rCalls :: "int list"
  rMaxFee :: int

record rwrConfig =
  rwrAccounts :: "account list"
  rwrBundleSize :: nat
  rwrBatchSize :: nat
  rwrConcurrency :: nat
  rwrPrefetch :: prefetched

record rwrState =
  rwrTasks :: "rwrTask list"
  rwrLimiter :: limiter
  nonceCounters :: "string \<rightharpoonup> nat"
  rwrHashes :: "string list"
  rwrCalls :: "remoteCall list"
  rwrSlept :: "nat list"

definition rwrSend :: "remoteCall \<Rightarrow> rwrState \<Rightarrow> rwrState" where
  "rwrSend c s = s\<lparr>rwrCalls := rwrCalls s @ [c]\<rparr>"

definition rwrSetStage :: "nat \<Rightarrow> rwrStage \<Rightarrow> rwrState \<Rightarrow> rwrState" where
  "rwrSetStage b st s = s\<lparr>rwrTasks := (rwrTasks s)[b := (rwrTasks s ! b)\<lparr>rStage := st\<rparr>]\<rparr>"

text \<open>
  The head of the closure of operation \<open>b\<close>, up to its first \<open>await\<close>:
  \<^verbatim>\<open>const accObj = testAccounts[b % testAccounts.length];\<close>
  \<^verbatim>\<open>const initialValue = uniqueAccountBalances.get(accObj.address) || '0';\<close>
  \<^verbatim>\<open>const baseNonce = accountBaseNonces.get(accObj.address) || 0n;\<close>
  \<^verbatim>\<open>const counter = accountNonceCounters.get(accObj.address) || 0;\<close>
  \<^verbatim>\<open>const optimisticNonce = baseNonce + BigInt(counter);\<close>
  \<^verbatim>\<open>accountNonceCounters.set(accObj.address, counter + 1);\<close>
  then the bundle \<^verbatim>\<open>new_balance: BigInt(b + i + 1)\<close> for \<open>i < bundleSize\<close> and the request
  for the fee estimate. The base nonce is not converted before the addition.
\<close>

definition rwrStartTask :: "rwrConfig \<Rightarrow> nat \<Rightarrow> rwrState \<Rightarrow> rwrState" where
  "rwrStartTask cfg b s =
     (let accObj = rwrAccounts cfg ! (b mod length (rwrAccounts cfg));
          addr = address accObj;
          initialValue = (case uniqueAccountBalances (rwrPrefetch cfg) addr of
                            Some v \<Rightarrow> v | None \<Rightarrow> 0);
          baseNonce = (case accountBaseNonces (rwrPrefetch cfg) addr of
                         Some v \<Rightarrow> jsOr v (JsBigInt 0) | None \<Rightarrow> JsBigInt 0);
          counter = (case nonceCounters s addr of Some c \<Rightarrow> c | None \<Rightarrow> 0);
          optimisticNonce = jsPlusBigInt baseNonce (int counter);
          calls = map (\<lambda>i. int (b + i + 1)) [0..<rwrBundleSize cfg]
      in rwrSend (EstimateInvokeFee addr calls)
           (s\<lparr>nonceCounters := (nonceCounters s)(addr \<mapsto> counter + 1),
              rwrTasks := (rwrTasks s)[b := \<lparr>rStage = RwrEstimating, rAccount = accObj,
                                             rInitialValue = initialValue,
                                             rOptimisticNonce = optimisticNonce,
                                             rCalls = calls, rMaxFee = 0\<rparr>]\<rparr>))"

definition rwrStarted :: "rwrConfig \<Rightarrow> nat option \<times> limiter \<Rightarrow> rwrState \<Rightarrow> rwrState" where
  "rwrStarted cfg r s =
     (case fst r of
        None \<Rightarrow> s\<lparr>rwrLimiter := snd r\<rparr>
      | Some b \<Rightarrow> rwrStartTask cfg b (s\<lparr>rwrLimiter := snd r\<rparr>))"

definition rwrEmptyTask :: rwrTask where
  "rwrEmptyTask = \<lparr>rStage = RwrQueued, rAccount = \<lparr>address = [], privateKey = []\<rparr>,
                    rInitialValue = 0, rOptimisticNonce = JsBigInt 0, rCalls = [], rMaxFee = 0\<rparr>"

text \<open>
  \<^verbatim>\<open>for (let b = 0; b < batchSize; b++) { ops.push(limit(async () => { ... })); }\<close>
\<close>

definition rwrInit :: "rwrConfig \<Rightarrow> rwrState" where
  "rwrInit cfg =
     (let n = rwrBatchSize cfg
      in fold (\<lambda>b s. rwrStarted cfg (tryStart (rwrLimiter s)) s) [0..<n]
           \<lparr>rwrTasks = replicate n rwrEmptyTask, rwrLimiter = pLimit (rwrConcurrency cfg) n,
            nonceCounters = accountNonceCounters (rwrPrefetch cfg), rwrHashes = [],
            rwrCalls = [], rwrSlept = []\<rparr>)"

text \<open>
  An operation returns: no error leaves the closure
  (\<^verbatim>\<open>} catch (err) { console.error(...); return null; }\<close>), so its promise resolves, and the
  limiter moves on.
\<close>

definition rwrFinish :: "rwrConfig \<Rightarrow> nat \<Rightarrow> customer option \<Rightarrow> rwrState \<Rightarrow> rwrState" where
  "rwrFinish cfg b res s =
     (let s1 = rwrSetStage b (RwrSettled res) s
      in rwrStarted cfg (pLimitNext (rwrLimiter s1)) s1)"

datatype rwrEvent =
    RwrEstimateReply nat "jsError + int"
  | RwrExecuteReply nat "jsError + string"
  | RwrNonceReply nat "jsError + jsValue"
  | RwrDelayElapsed nat

text \<open>
  One event: the reply to the pending call of an operation, or the end of its sleep.
  The submission loop is \<^verbatim>\<open>while (retryCount < maxRetries)\<close> with \<open>maxRetries = 5\<close>:
  \<^verbatim>\<open>try { executeResult = await account.execute(bundleCalls, undefined, { maxFee, nonce: currentNonce }); break; }\<close>
  \<^verbatim>\<open>catch (err) { ... if ((isNonceError || isRateLimit || isServerError) && retryCount < maxRetries - 1) {\<close>
  \<^verbatim>\<open>    retryCount++; ...\<close>
  \<^verbatim>\<open>    if (isNonceError || isServerError) { try { const freshNonce = await account.getNonce('pending');\<close>
  \<^verbatim>\<open>        currentNonce = freshNonce > optimisticNonce ? freshNonce : optimisticNonce + BigInt(retryCount);\<close>
  \<^verbatim>\<open>      } catch (nonceErr) { currentNonce = optimisticNonce + BigInt(retryCount); } }\<close>
  \<^verbatim>\<open>    await new Promise(resolve => setTimeout(resolve, delay)); continue; }\<close>
  \<^verbatim>\<open>  throw err; }\<close>
  After the loop, \<^verbatim>\<open>if (!executeResult) { ...; return null; }\<close>, then
  \<^verbatim>\<open>writeTxHashes.push(executeResult.transaction_hash);\<close> and the customer record is
  returned. The switch to another provider on a retry does not show in the calls.
\<close>

fun rwrStep :: "rwrConfig \<Rightarrow> rwrEvent \<Rightarrow> rwrState \<Rightarrow> rwrState option" where
  "rwrStep cfg (RwrEstimateReply b reply) s =
     (if b < length (rwrTasks s) then
        (case rStage (rwrTasks s ! b) of
           RwrEstimating \<Rightarrow>
             (case reply of
                Inr fee \<Rightarrow>
                  (let t = rwrTasks s ! b
                   in Some (rwrSend (ExecuteRaw (address (rAccount t)) (rCalls t) (rOptimisticNonce t))
                              (s\<lparr>rwrTasks := (rwrTasks s)[b := t
                                    \<lparr>rStage := RwrExecuting 0 (rOptimisticNonce t),
                                     rMaxFee := bigintDiv (fee * 12) 10\<rparr>]\<rparr>)))
              | Inl err \<Rightarrow> Some (rwrFinish cfg b None s))
         | _ \<Rightarrow> None)
      else None)"
| "rwrStep cfg (RwrExecuteReply b reply) s =
     (if b < length (rwrTasks s) then
        (case rStage (rwrTasks s ! b) of
           RwrExecuting retryCount currentNonce \<Rightarrow>
             (case reply of
                Inr transaction_hash \<Rightarrow>
                  Some (rwrFinish cfg b
                          (Some \<lparr>customerId = b + 1,
                                 custAddress = address (rAccount (rwrTasks s ! b)),
                                 initialBalance = rInitialValue (rwrTasks s ! b),
                                 txHash = transaction_hash\<rparr>)
                          (s\<lparr>rwrHashes := rwrHashes s @ [transaction_hash]\<rparr>))
              | Inl err \<Rightarrow>
                  if (isNonceError err \<or> isRateLimitRwr err \<or> isServerError err)
                     \<and> retryCount < 5 - 1
                  then
                    (if isNonceError err \<or> isServerError err then
                       Some (rwrSend (GetNonce (address (rAccount (rwrTasks s ! b))))
                               (rwrSetStage b (RwrRefreshing (retryCount + 1) err) s))
                     else
                       Some ((rwrSetStage b (RwrSleeping (retryCount + 1) currentNonce) s)
                               \<lparr>rwrSlept := rwrSlept s @ [rwrDelay err (retryCount + 1)]\<rparr>))
                  else Some (rwrFinish cfg b None s))
         | _ \<Rightarrow> None)
      else None)"
| "rwrStep cfg (RwrNonceReply b reply) s =
     (if b < length (rwrTasks s) then
        (case rStage (rwrTasks s ! b) of
           RwrRefreshing retryCount err \<Rightarrow>
             (let optimisticNonce = rOptimisticNonce (rwrTasks s ! b);
                  currentNonce =
                    (case reply of
                       Inr freshNonce \<Rightarrow>
                         if jsGreater freshNonce optimisticNonce then freshNonce
                         else jsPlusBigInt optimisticNonce (int retryCount)
                     | Inl nonceErr \<Rightarrow> jsPlusBigInt optimisticNonce (int retryCount))
              in Some ((rwrSetStage b (RwrSleeping retryCount currentNonce) s)
                         \<lparr>rwrSlept := rwrSlept s @ [rwrDelay err retryCount]\<rparr>))
         | _ \<Rightarrow> None)
      else None)"
| "rwrStep cfg (RwrDelayElapsed b) s =
     (if b < length (rwrTasks s) then
        (case rStage (rwrTasks s ! b) of
           RwrSleeping retryCount currentNonce \<Rightarrow>
             if retryCount < 5 then
               Some (rwrSend (ExecuteRaw (address (rAccount (rwrTasks s ! b)))
                                (rCalls (rwrTasks s ! b)) currentNonce)
                       (rwrSetStage b (RwrExecuting retryCount currentNonce) s))
             else Some (rwrFinish cfg b None s)
         | _ \<Rightarrow> None)
      else None)"

fun rwrExec :: "rwrConfig \<Rightarrow> rwrEvent list \<Rightarrow> rwrState \<Rightarrow> rwrState option" where
  "rwrExec cfg [] s = Some s"
| "rwrExec cfg (ev # evs) s =
     (case rwrStep cfg ev s of None \<Rightarrow> None | Some s' \<Rightarrow> rwrExec cfg evs s')"

fun isRwrSettled :: "rwrStage \<Rightarrow> bool" where
  "isRwrSettled (RwrSettled res) = True"
| "isRwrSettled st = False"

text \<open>\<^verbatim>\<open>const results = await Promise.all(ops);\<close>\<close>

definition allSettled :: "rwrState \<Rightarrow> bool" where
  "allSettled s = list_all (\<lambda>t. isRwrSettled (rStage t)) (rwrTasks s)"

definition rwrResults :: "rwrState \<Rightarrow> customer option list" where
  "rwrResults s = map (\<lambda>t. case rStage t of RwrSettled res \<Rightarrow> res | _ \<Rightarrow> None) (rwrTasks s)"






definition receiptOf :: "jsError + (int \<times> int) option \<Rightarrow> (int \<times> int) option option" where
  "receiptOf reply = (case reply of Inr receipt \<Rightarrow> Some receipt | Inl err \<Rightarrow> None)"




text \<open>
  \<^verbatim>\<open>const receipts = await Promise.all(receiptPromises); validReceipts = receipts.filter(r => r);\<close>
\<close>

definition validReceiptsOf :: "rwrRemote \<Rightarrow> string list \<Rightarrow> (int \<times> int) option list" where
  "validReceiptsOf env hashes =
     concat (map (\<lambda>idx. case receiptOf (confirmReply env idx) of None \<Rightarrow> [] | Some r \<Rightarrow> [r])
               [0..<length hashes])"

text \<open>
  The final balance of every customer whose write was submitted; \<open>None\<close> is the
  \<open>'ERROR'\<close> the script stores when the read throws.
\<close>

definition finalBalances :: "rwrRemote \<Rightarrow> customer list \<Rightarrow> (customer \<times> int option) list" where
  "finalBalances env validResults =
     map (\<lambda>(idx, result).
            (result, case finalBalanceReply env idx of Inr v \<Rightarrow> Some v | Inl err \<Rightarrow> None))
       (enumerate 0 validResults)"


section \<open>The report and the whole run\<close>

text \<open>
  \<^verbatim>\<open>const actualSuccessfulWrites = writeTxHashes.length;\<close>
  \<^verbatim>\<open>const actualSuccessfulReads = mode === 'rwr' ? actualSuccessfulWrites * 2 : numReads; // RWR: 2 reads per successful write\<close>
  \<^verbatim>\<open>validReceipts.forEach(r => { if (r && r.actual_fee) { ... totalCostStrk += Number(feeBigInt) / 1e18; } });\<close>
  The durations and the rates derived from them depend on the clock and are left out.
\<close>

record report =
  actualSuccessfulReads :: int
  actualSuccessfulWrites :: int
  totalCostStrk :: rat

definition addFee :: "(int \<times> int) option \<Rightarrow> rat \<Rightarrow> rat" where
  "addFee r cost =
     (case r of
        None \<Rightarrow> cost
      | Some (low, high) \<Rightarrow> jsAdd cost (jsDiv (toDouble (of_int (high * 2 ^ 128 + low))) (10 ^ 18)))"

definition makeReport :: "string \<Rightarrow> int \<Rightarrow> string list \<Rightarrow> (int \<times> int) option list \<Rightarrow> report" where
  "makeReport mode numReads hashes validReceipts =
     (let writes = int (length hashes)
      in \<lparr>actualSuccessfulReads = (if mode = ''rwr'' then writes * 2 else numReads),
          actualSuccessfulWrites = writes,
          totalCostStrk = fold addFee validReceipts 0\<rparr>)"

text \<open>
  Everything the environment contributes to one run: the replies of the remote ledger,
  the values of \<open>Math.random()\<close>, and the order in which the replies of the concurrent
  operations arrive (\<open>dispatchEvents\<close> in blend mode, \<open>rwrEvents\<close> in rwr mode).
\<close>

record remote =
  nonceCheckReply :: "nat \<Rightarrow> jsError + int"
  balanceReply :: "nat \<Rightarrow> jsError + int \<times> int"
  sortRandom :: "nat \<Rightarrow> rat"
  beforeBalanceReply :: "nat \<Rightarrow> jsError + int \<times> int"
  backoffRandom :: "nat \<Rightarrow> rat"
  dispatchEvents :: "event list"
  retryReply :: "nat \<Rightarrow> retryReplies"
  afterBalanceReply :: "nat \<Rightarrow> jsError + int \<times> int"
  rwrReplies :: rwrRemote
  rwrEvents :: "rwrEvent list"
  persistEstimate :: "jsError + int"
  persistExecute :: "jsError + string"
  persistWait :: "jsError + unit"

text \<open>
  How a run ends: \<open>runBatchTest\<close> throws, or returns, or (for a list of events that
  leaves operations waiting) has not got further than \<open>await Promise.all(ops)\<close>;
  \<open>Impossible\<close> marks a list of events that no run can produce. \<open>printed\<close> is the
  report, if the run got as far as printing it; \<open>calls\<close> are the remote calls sent;
  \<open>readsReturned\<close> counts the contract reads of the batch that returned a value (the
  scripts themselves do not count them).
\<close>

datatype runStatus = Threw jsError | Returned | Waiting | Impossible

record runResult =
  status :: runStatus
  printed :: "report option"
  calls :: "remoteCall list"
  logged :: "logEntry list"
  readsReturned :: nat

text \<open>
  \<^verbatim>\<open>const usedAccounts = [...new Set(Array.from({length: Math.max(numBundles, numReads)},\<close>
  \<^verbatim>\<open>    (_, b) => testAccounts[b % testAccounts.length]))];\<close>
  The set holds object references, so two accounts are the same when they are the same
  entry of \<open>testAccounts\<close>; the set keeps the order of first insertion.
\<close>

definition usedAccounts :: "account list \<Rightarrow> int \<Rightarrow> account list" where
  "usedAccounts accs n =
     map (\<lambda>i. accs ! i) (rev (remdups (rev (map (\<lambda>b. b mod length accs) [0..<nat n]))))"

text \<open>
  Storing the batch record after the report:
  \<^verbatim>\<open>const estimated = await testAccount.estimateInvokeFee(batchInfoCall);\<close>
  \<^verbatim>\<open>const tx = await testAccount.execute(batchInfoCall, undefined, { maxFee, version: 1n });\<close>
  \<^verbatim>\<open>await providers[0].waitForTransaction(tx.transaction_hash);\<close>
\<close>

definition persistBatchInfo :: "remote \<Rightarrow> runResult \<Rightarrow> runResult" where
  "persistBatchInfo env r =
     (let r1 = r\<lparr>calls := calls r @ [EstimateBatchInfo]\<rparr>
      in case persistEstimate env of
           Inl err \<Rightarrow> r1\<lparr>status := Threw err\<rparr>
         | Inr fee \<Rightarrow>
             (let r2 = r1\<lparr>calls := calls r1 @ [ExecuteBatchInfo]\<rparr>
              in case persistExecute env of
                   Inl err \<Rightarrow> r2\<lparr>status := Threw err\<rparr>
                 | Inr transaction_hash \<Rightarrow>
                     (let r3 = r2\<lparr>calls := calls r2 @ [WaitForTransaction transaction_hash]\<rparr>
                      in case persistWait env of
                           Inl err \<Rightarrow> r3\<lparr>status := Threw err\<rparr>
                         | Inr u \<Rightarrow> r3\<lparr>status := Returned\<rparr>)))"

fun isReadResult :: "stage \<Rightarrow> bool" where
  "isReadResult (Resolved (Some (ReadResult v))) = True"
| "isReadResult st = False"

definition rangeError :: jsError where
  "rangeError = \<lparr>errName = ''RangeError'', message = ''Invalid array length'', baseErrorCode = None\<rparr>"

text \<open>
  Blend mode of \<open>runBatchTest\<close> (Madara variant), after the precondition checks.
  \<open>bundleSize\<close> is a positive integer. First the accounts whose balances are printed
  before and after the batch, and the setting of the dispatch.
\<close>

definition blendUsedAccounts :: "account list \<Rightarrow> int \<Rightarrow> nat \<Rightarrow> rat \<Rightarrow> account list" where
  "blendUsedAccounts accs batchSize bundle readRatio =
     (let numWrites = snd (blendCounts batchSize readRatio);
          numReads = fst (blendCounts batchSize readRatio);
          numBundles = \<lceil>jsDiv (of_int numWrites) (of_nat bundle)\<rceil>
      in usedAccounts accs (max numBundles numReads))"

definition blendConfig ::
  "remote \<Rightarrow> account list \<Rightarrow> int \<Rightarrow> nat \<Rightarrow> rat \<Rightarrow> nat \<Rightarrow> nat \<Rightarrow> config" where
  "blendConfig env accs batchSize bundle readRatio conc nProviders =
     (let numWrites = snd (blendCounts batchSize readRatio);
          numReads = fst (blendCounts batchSize readRatio)
      in \<lparr>testAccounts = accs, bundleSize = bundle, numWrites = numWrites,
          opTypes = buildOpTypes (sortRandom env) (nat numReads) (nat numWrites),
          concurrency = conc, numProviders = nProviders,
          mathRandom = backoffRandom env\<rparr>)"

text \<open>
  The run: the balances before, the dispatch, \<open>await Promise.all(ops)\<close>, the retry of
  the failed writes, the balances after, the report, the batch record. \<open>calls0\<close> are
  the calls sent by the precondition checks.
\<close>

definition runBlend ::
  "remote \<Rightarrow> account list \<Rightarrow> int \<Rightarrow> nat \<Rightarrow> rat \<Rightarrow> nat \<Rightarrow> nat \<Rightarrow> remoteCall list \<Rightarrow> runResult" where
  "runBlend env accs batchSize bundle readRatio conc nProviders calls0 =
     (let numWrites = snd (blendCounts batchSize readRatio);
          numReads = fst (blendCounts batchSize readRatio);
          used = blendUsedAccounts accs batchSize bundle readRatio;
          balanceCalls = map (\<lambda>acc. BalanceOf (address acc)) used;
          calls1 = calls0 @ balanceCalls
      in case promiseAll (map (beforeBalanceReply env) [0..<length used]) of
           Inl err \<Rightarrow>
             \<lparr>status = Threw err, printed = None, calls = calls1, logged = [], readsReturned = 0\<rparr>
         | Inr beforeBalances \<Rightarrow>
             if numReads < 0 \<or> numWrites < 0 then
               \<lparr>status = Threw rangeError, printed = None, calls = calls1, logged = [],
                readsReturned = 0\<rparr>
             else
               (let cfg = blendConfig env accs batchSize bundle readRatio conc nProviders
                in case exec cfg (dispatchEvents env) (initDispatch cfg) of
                     None \<Rightarrow>
                       \<lparr>status = Impossible, printed = None, calls = calls1, logged = [],
                        readsReturned = 0\<rparr>
                   | Some s \<Rightarrow>
                       (let returned = length (filter (\<lambda>t. isReadResult (tStage t)) (tasks s))
                        in case rejection s of
                             Some err \<Rightarrow>
                               \<lparr>status = Threw err, printed = None, calls = calls1 @ issued s,
                                logged = console s, readsReturned = returned\<rparr>
                           | None \<Rightarrow>
                               if \<not> allResolved s then
                                 \<lparr>status = Waiting, printed = None, calls = calls1 @ issued s,
                                  logged = console s, readsReturned = returned\<rparr>
                               else
                                 (let s' = retryFailedWrites (retryReply env) 0 (failedWrites s) s;
                                      calls2 = calls1 @ issued s' @ balanceCalls
                                  in case promiseAll (map (afterBalanceReply env) [0..<length used]) of
                                       Inl err \<Rightarrow>
                                         \<lparr>status = Threw err, printed = None, calls = calls2,
                                          logged = console s', readsReturned = returned\<rparr>
                                     | Inr afterBalances \<Rightarrow>
                                         persistBatchInfo env
                                           \<lparr>status = Returned,
                                            printed = Some (makeReport ''blend'' numReads
                                                              (writeTxHashes s') []),
                                            calls = calls2, logged = console s',
                                            readsReturned = returned\<rparr>))))"

text \<open>
  Rwr mode of \<open>runBatchTest\<close>: the prefetch, the dispatch of the writes under
  \<open>pLimit(concurrency)\<close>, and the state in which the confirmation polls start once
  \<open>Promise.all(ops)\<close> has returned; the limiter of the polls is created with the
  constant 10.
\<close>

definition rwrPrefetched :: "remote \<Rightarrow> account list \<Rightarrow> prefetched" where
  "rwrPrefetched env accs =
     prefetchAll (rwrReplies env) 0 accs
       \<lparr>uniqueAccountBalances = Map.empty, accountBaseNonces = Map.empty,
        accountNonceCounters = Map.empty\<rparr>"

definition rwrConfigOf :: "remote \<Rightarrow> account list \<Rightarrow> int \<Rightarrow> nat \<Rightarrow> nat \<Rightarrow> rwrConfig" where
  "rwrConfigOf env accs batchSize bundle conc =
     \<lparr>rwrAccounts = accs, rwrBundleSize = bundle, rwrBatchSize = nat batchSize,
      rwrConcurrency = conc, rwrPrefetch = rwrPrefetched env accs\<rparr>"

definition rwrSubmitted ::
  "remote \<Rightarrow> account list \<Rightarrow> int \<Rightarrow> nat \<Rightarrow> nat \<Rightarrow> rwrState option" where
  "rwrSubmitted env accs batchSize bundle conc =
     rwrExec (rwrConfigOf env accs batchSize bundle conc) (rwrEvents env)
       (rwrInit (rwrConfigOf env accs batchSize bundle conc))"


text \<open>
  The whole of rwr mode. No error of an operation, a poll or a read leaves its
  handler; only storing the batch record can throw. Every balance read (one per
  account before the writes, one per submitted write at the end) is a single call
  inside \<open>try\<close>/\<open>catch\<close>.
\<close>

definition runRwr ::
  "remote \<Rightarrow> account list \<Rightarrow> int \<Rightarrow> nat \<Rightarrow> nat \<Rightarrow> remoteCall list \<Rightarrow> runResult" where
  "runRwr env accs batchSize bundle conc calls0 =
     (let renv = rwrReplies env;
          prefetchCalls = concat (map (\<lambda>acc. [CallGetBalance (address acc), GetNonce (address acc)]) accs);
          prefetchReturned = length (filter (\<lambda>idx. \<not> isl (prefetchBalance renv idx)) [0..<length accs])
      in case rwrSubmitted env accs batchSize bundle conc of
           None \<Rightarrow>
             \<lparr>status = Impossible, printed = None, calls = calls0 @ prefetchCalls, logged = [],
              readsReturned = prefetchReturned\<rparr>
         | Some s \<Rightarrow>
             if \<not> allSettled s then
               \<lparr>status = Waiting, printed = None, calls = calls0 @ prefetchCalls @ rwrCalls s,
                logged = [], readsReturned = prefetchReturned\<rparr>
             else
               (let validResults = concat (map (\<lambda>r. case r of None \<Rightarrow> [] | Some c \<Rightarrow> [c])
                                             (rwrResults s));
                    validReceipts = validReceiptsOf renv (rwrHashes s);
                    finals = finalBalances renv validResults;
                    returned = prefetchReturned + length (filter (\<lambda>f. snd f \<noteq> None) finals)
                in persistBatchInfo env
                     \<lparr>status = Returned,
                      printed = Some (makeReport ''rwr'' (batchSize * 2) (rwrHashes s) validReceipts),
                      calls = calls0 @ prefetchCalls @ rwrCalls s
                              @ map WaitForTransaction (rwrHashes s)
                              @ map (\<lambda>c. CallGetBalance (custAddress c)) validResults,
                      logged = [], readsReturned = returned\<rparr>))"

text \<open>
  \<open>runBatchTest(testAccounts, batchSize, bundleSize, readRatio, mode, concurrency)\<close> of
  the Madara variant; \<open>nProviders\<close> is \<open>providers.length\<close>.
\<close>

definition runBatchTest ::
  "remote \<Rightarrow> account list \<Rightarrow> int \<Rightarrow> nat \<Rightarrow> rat \<Rightarrow> string \<Rightarrow> nat \<Rightarrow> nat \<Rightarrow> runResult" where
  "runBatchTest env accs batchSize bundle readRatio mode conc nProviders =
     (let calls0 = precheckCalls (nonceCheckReply env) accs
      in case precheckMadara (nonceCheckReply env) (balanceReply env) accs of
           Inl err \<Rightarrow>
             \<lparr>status = Threw err, printed = None, calls = calls0, logged = [], readsReturned = 0\<rparr>
         | Inr sufficient \<Rightarrow>
             if mode = ''blend'' then
               runBlend env sufficient batchSize bundle readRatio conc nProviders calls0
             else if mode = ''rwr'' then runRwr env sufficient batchSize bundle conc calls0
             else
               \<lparr>status = Threw (newError (''Unknown mode: '' @ mode)), printed = None,
                calls = calls0, logged = [], readsReturned = 0\<rparr>)"


section \<open>Example environments\<close>

definition account1 :: account where
  "account1 = \<lparr>address = ''0xa1'', privateKey = ''0x1''\<rparr>"

definition account2 :: account where
  "account2 = \<lparr>address = ''0xa2'', privateKey = ''0x2''\<rparr>"

definition quietRwr :: rwrRemote where
  "quietRwr = \<lparr>prefetchBalance = (\<lambda>idx. Inr 5), prefetchNonce = (\<lambda>idx. Inr (JsString ''0x3'')),
     confirmReply = (\<lambda>idx. Inr (Some (5, 0))), finalBalanceReply = (\<lambda>idx. Inr 6)\<rparr>"

text \<open>
  An environment in which every call succeeds; every account holds \<open>balance\<close> (in wei).
  The events of the blend dispatch are given; no reply has arrived in the rwr dispatch.
\<close>

definition quietRemote :: "int \<Rightarrow> event list \<Rightarrow> remote" where
  "quietRemote balance evs =
     \<lparr>nonceCheckReply = (\<lambda>i. Inr 0), balanceReply = (\<lambda>i. Inr (balance, 0)),
      sortRandom = (\<lambda>k. 1 / 4), beforeBalanceReply = (\<lambda>i. Inr (balance, 0)),
      backoffRandom = (\<lambda>k. 1 / 2), dispatchEvents = evs,
      retryReply = (\<lambda>i. \<lparr>retryEstimate = Inr 10, retryNonce = Inr 8, retryExecute = Inr ''0xr''\<rparr>),
      afterBalanceReply = (\<lambda>i. Inr (balance, 0)), rwrReplies = quietRwr, rwrEvents = [],
      persistEstimate = Inr 1, persistExecute = Inr ''0xp'', persistWait = Inr ()\<rparr>"

text \<open>
  The events of an rwr dispatch of \<open>n\<close> operations in which the fee estimate and the
  submission of every operation succeed, operation by operation.
\<close>

definition rwrAllSucceed :: "nat \<Rightarrow> rwrEvent list" where
  "rwrAllSucceed n =
     concat (map (\<lambda>b. [RwrEstimateReply b (Inr 10), RwrExecuteReply b (Inr ''0xe'')]) [0..<n])"

text \<open>An rwr run of one operation whose final balance read throws.\<close>

definition finalReadsFail :: remote where
  "finalReadsFail =
     (quietRemote (10 ^ 18) [])
       \<lparr>rwrReplies := quietRwr\<lparr>finalBalanceReply := (\<lambda>idx. Inl (newError ''read failed''))\<rparr>,
        rwrEvents := rwrAllSucceed 1\<rparr>"



text \<open>
  An rwr run of three operations on one account, two at a time: the submission of the
  second fails with an error that is not retried, the other two succeed.
\<close>

definition oneOfThreeFails :: remote where
  "oneOfThreeFails =
     (quietRemote (10 ^ 18) [])
       \<lparr>rwrEvents := [RwrEstimateReply 0 (Inr 10), RwrEstimateReply 1 (Inr 10),
                      RwrExecuteReply 1 (Inl (newError ''timeout'')),
                      RwrExecuteReply 0 (Inr ''0xe0''),
                      RwrEstimateReply 2 (Inr 10), RwrExecuteReply 2 (Inr ''0xe2'')]\<rparr>"


section \<open>Observations on the dispatch\<close>

text \<open>An operation is active from the moment the limiter starts it until it settles.\<close>

fun isActive :: "stage \<Rightarrow> bool" where
  "isActive Queued = False"
| "isActive (Resolved res) = False"
| "isActive (Rejected err) = False"
| "isActive st = True"




text \<open>The transaction hash an event adds: that of a submission that succeeded.\<close>

fun submitted :: "event \<Rightarrow> string list" where
  "submitted (ExecuteReply b (Inr transaction_hash)) = [transaction_hash]"
| "submitted ev = []"

text \<open>
  What a retry amounts to, in the words of the spec: the failed write is submitted
  again once, after a fee estimate and a fresh nonce fetch, with its original calls and
  the fetched nonce; it yields a transaction hash if all three calls succeed.
\<close>

definition retried :: "retryReplies \<Rightarrow> string list" where
  "retried r =
     (case (retryEstimate r, retryNonce r, retryExecute r) of
        (Inr fee, Inr n, Inr transaction_hash) \<Rightarrow> [transaction_hash]
      | _ \<Rightarrow> [])"

definition retryCalls :: "retryReplies \<Rightarrow> failedWrite \<Rightarrow> remoteCall list" where
  "retryCalls r fw =
     EstimateInvokeFee (address (fwAccount fw)) (fwBundleCalls fw)
     # (case retryEstimate r of
          Inl err \<Rightarrow> []
        | Inr fee \<Rightarrow>
            GetNonce (address (fwAccount fw))
            # (case retryNonce r of
                 Inl err \<Rightarrow> []
               | Inr n \<Rightarrow> [Execute (address (fwAccount fw)) (fwBundleCalls fw) n]))"

text \<open>
  The stages a read and a write can be in. A read makes at most 3 attempts, numbered
  from 0, and sleeps only after the first two.
\<close>

fun stageFits :: "opType \<Rightarrow> stage \<Rightarrow> bool" where
  "stageFits t Queued = True"
| "stageFits t (Rejected err) = True"
| "stageFits ReadOp (AwaitRead attempt) = (attempt < 3)"
| "stageFits ReadOp (Backoff attempt) = (attempt < 2)"
| "stageFits ReadOp (Resolved (Some (ReadResult v))) = True"
| "stageFits WriteOp AwaitEstimate = True"
| "stageFits WriteOp AwaitNonce = True"
| "stageFits WriteOp (AwaitExecute n) = True"
| "stageFits WriteOp (Resolved None) = True"
| "stageFits WriteOp (Resolved (Some (WriteResult h))) = True"
| "stageFits t st = False"

text \<open>
  The states of a dispatch that are consistent: the queue holds exactly the
  operations that have not been started, in order; every operation is in a stage of
  its type; the limiter's counter is the number of active operations and does not
  exceed the limit.
\<close>

definition wellFormed :: "config \<Rightarrow> dispatch \<Rightarrow> bool" where
  "wellFormed cfg s =
     (let n = length (opTypes cfg); l = limiter s; k = n - length (queue l)
      in length (tasks s) = n
         \<and> limit l = concurrency cfg
         \<and> queue l = [k..<n]
         \<and> list_all (\<lambda>b. (tStage (tasks s ! b) = Queued) = (k \<le> b)
                        \<and> stageFits (opTypes cfg ! b) (tStage (tasks s ! b))) [0..<n]
         \<and> activeCount l = length (filter (\<lambda>t. isActive (tStage t)) (tasks s))
         \<and> activeCount l \<le> limit l)"


text \<open>A blend dispatch of two writes on one account, two at a time.\<close>

definition twoWrites :: config where
  "twoWrites = \<lparr>testAccounts = [account1], bundleSize = 1, numWrites = 2,
                 opTypes = [WriteOp, WriteOp], concurrency = 2, numProviders = 1,
                 mathRandom = (\<lambda>k. 1 / 2)\<rparr>"






text \<open>The transaction hash an event of rwr mode adds.\<close>

fun rwrSubmittedHash :: "rwrEvent \<Rightarrow> string list" where
  "rwrSubmittedHash (RwrExecuteReply b (Inr transaction_hash)) = [transaction_hash]"
| "rwrSubmittedHash ev = []"








text \<open>
  Blend runs of one read (operation 0) and one write (operation 1) on one account: the
  write is submitted and fails with an error that is neither a nonce error nor a rate
  limit; the write meets a nonce error.
\<close>

definition skippedWrite :: remote where
  "skippedWrite =
     quietRemote (10 ^ 18)
       [ReadReply 0 (Inr 5), EstimateReply 1 (Inr 100), NonceReply 1 (Inr 7),
        ExecuteReply 1 (Inl (newError ''timeout''))]"









text \<open>The contract reads among the calls.\<close>

fun isContractRead :: "remoteCall \<Rightarrow> bool" where
  "isContractRead (CallGetBalance a) = True"
| "isContractRead c = False"


section \<open>Properties of the number model\<close>

lemma pow2_pos: "0 < pow2 e"
  by (simp add: pow2_def)

lemma pow2_add: "pow2 (a + b) = pow2 a * pow2 b"
  by (simp add: pow2_def power_int_add)

lemma pow2_mono: "a \<le> b \<Longrightarrow> pow2 a \<le> pow2 b"
  by (simp add: pow2_def power_int_increasing)

lemma pow2_less_imp: "pow2 a < pow2 b \<Longrightarrow> a < b"
  using pow2_mono [of b a] by (cases "a < b") auto

lemma bitlen_rat_bounds:
  assumes "0 < p"
  shows "pow2 (bitlen p - 1) \<le> of_int p" and "of_int p < pow2 (bitlen p)"
proof -
  from bitlen_bounds [OF assms]
  have lo: "2 ^ nat (bitlen p - 1) \<le> p" and hi: "p < 2 ^ nat (bitlen p)" by auto
  have b1: "1 \<le> bitlen p"
    using assms bitlen_eq_zero_iff [of p] bitlen_nonneg [of p] by linarith
  have "pow2 (bitlen p - 1) = 2 ^ nat (bitlen p - 1)"
    using b1 by (simp add: pow2_def power_int_def)
  also have "\<dots> = of_int (2 ^ nat (bitlen p - 1))" by simp
  also have "\<dots> \<le> of_int p" using lo by (simp only: of_int_le_iff)
  finally show "pow2 (bitlen p - 1) \<le> of_int p" .
  have "of_int p < (of_int (2 ^ nat (bitlen p)) :: rat)"
    using hi by (simp only: of_int_less_iff)
  also have "\<dots> = pow2 (bitlen p)" using b1 by (simp add: pow2_def power_int_def)
  finally show "of_int p < pow2 (bitlen p)" .
qed

lemma ilog2_bounds:
  assumes "0 < x"
  shows "pow2 (ilog2 x) \<le> x \<and> x < pow2 (ilog2 x + 1)"
proof -
  obtain p q where pq: "quotient_of x = (p, q)" by (cases "quotient_of x")
  have q: "0 < q" using quotient_of_denom_pos [OF pq] .
  have x: "x = of_int p / of_int q" using quotient_of_div [OF pq] .
  have p: "0 < p" using assms q x by (simp add: zero_less_divide_iff)
  let ?k = "bitlen p - bitlen q"
  have qr: "(0::rat) < of_int q" using q by simp
  have lo: "pow2 (?k - 1) \<le> x"
  proof -
    have "pow2 (?k - 1) * of_int q \<le> pow2 (?k - 1) * pow2 (bitlen q)"
      using bitlen_rat_bounds(2) [OF q] pow2_pos [of "?k - 1"] by (simp add: less_imp_le)
    also have "\<dots> = pow2 (bitlen p - 1)"
      by (simp add: pow2_add [symmetric])
    also have "\<dots> \<le> of_int p" using bitlen_rat_bounds(1) [OF p] .
    finally show ?thesis using qr by (simp add: x pos_le_divide_eq)
  qed
  have hi: "x < pow2 (?k + 1)"
  proof -
    have "of_int p < pow2 (bitlen p)" using bitlen_rat_bounds(2) [OF p] .
    also have "\<dots> = pow2 (?k + 1) * pow2 (bitlen q - 1)"
      by (simp add: pow2_add [symmetric])
    also have "\<dots> \<le> pow2 (?k + 1) * of_int q"
      using bitlen_rat_bounds(1) [OF q] pow2_pos [of "?k + 1"] by simp
    finally show ?thesis using qr by (simp add: x pos_divide_less_eq)
  qed
  show ?thesis
  proof (cases "pow2 ?k \<le> x")
    case True
    then have "ilog2 x = ?k" by (simp add: ilog2_def pq)
    with True hi show ?thesis by simp
  next
    case False
    then have "ilog2 x = ?k - 1" by (simp add: ilog2_def pq)
    with False lo show ?thesis by simp
  qed
qed

lemma roundTiesToEven_le: "q \<le> of_int k \<Longrightarrow> roundTiesToEven q \<le> k"
  unfolding roundTiesToEven_def Let_def
  by (auto simp: floor_le_iff le_floor_iff)

lemma roundTiesToEven_ge: "of_int k \<le> q \<Longrightarrow> k \<le> roundTiesToEven q"
  unfolding roundTiesToEven_def Let_def
  by (auto simp: le_floor_iff) linarith+

lemma roundTiesToEven_near: "\<bar>of_int (roundTiesToEven q) - q\<bar> \<le> 1 / 2"
proof -
  have "of_int \<lfloor>q\<rfloor> \<le> q" "q < of_int \<lfloor>q\<rfloor> + 1" by linarith+
  then show ?thesis
    unfolding roundTiesToEven_def Let_def by (auto simp: abs_le_iff)
qed

lemma toDouble_nonneg: "0 \<le> x \<Longrightarrow> 0 \<le> toDouble x"
proof (cases "x = 0")
  case True
  then show ?thesis by (simp add: toDouble_def)
next
  case False
  assume "0 \<le> x"
  with False have x: "0 < x" by simp
  let ?e = "ilog2 \<bar>x\<bar> - 52"
  have "0 \<le> \<bar>x\<bar> / pow2 ?e" using pow2_pos [of ?e] by simp
  then have "0 \<le> roundTiesToEven (\<bar>x\<bar> / pow2 ?e)"
    using roundTiesToEven_ge [of 0] by simp
  then show ?thesis
    using x pow2_pos [of ?e] by (simp add: toDouble_def Let_def)
qed

text \<open>Rounding never crosses an integer below \<open>2^53\<close>: such integers are binary64 values.\<close>

lemma toDouble_pos_scaled:
  assumes x: "0 < x" and lt: "x < 2 ^ 53"
  obtains n where "pow2 (ilog2 x - 52) = 1 / 2 ^ n"
    and "toDouble x = of_int (roundTiesToEven (x * 2 ^ n)) / 2 ^ n"
proof -
  let ?e = "ilog2 x - 52"
  have "pow2 (ilog2 x) \<le> x" using ilog2_bounds [OF x] by simp
  also have "x < pow2 53" using lt by (simp add: pow2_def)
  finally have "ilog2 x < 53" by (rule pow2_less_imp)
  then have e: "?e \<le> 0" by simp
  define n where "n = nat (- ?e)"
  have pe: "pow2 ?e = 1 / 2 ^ n"
    using e by (simp add: pow2_def power_int_def n_def inverse_eq_divide power_one_over)
  have "toDouble x = of_int (roundTiesToEven (x * 2 ^ n)) / 2 ^ n"
    using x by (simp add: toDouble_def Let_def pe)
  with pe show ?thesis by (rule that)
qed

lemma toDouble_le_int:
  assumes "0 \<le> x" and "x \<le> of_int b" and "b < 2 ^ 53"
  shows "toDouble x \<le> of_int b"
proof (cases "x = 0")
  case True
  with assms show ?thesis by (simp add: toDouble_def)
next
  case False
  with assms have x: "0 < x" by simp
  have "(of_int b :: rat) < of_int (2 ^ 53)" using assms(3) by (simp only: of_int_less_iff)
  with assms(2) have lt: "x < 2 ^ 53" by simp
  from toDouble_pos_scaled [OF x lt] obtain n
    where td: "toDouble x = of_int (roundTiesToEven (x * 2 ^ n)) / 2 ^ n" by blast
  have "x * 2 ^ n \<le> of_int b * 2 ^ n" using assms(2) by simp
  also have "\<dots> = of_int (b * 2 ^ n)" by simp
  finally have "roundTiesToEven (x * 2 ^ n) \<le> b * 2 ^ n" by (rule roundTiesToEven_le)
  then have "(of_int (roundTiesToEven (x * 2 ^ n)) :: rat) \<le> of_int (b * 2 ^ n)"
    by (simp only: of_int_le_iff)
  then show ?thesis by (simp add: td pos_divide_le_eq)
qed

lemma toDouble_ge_int:
  assumes "0 < b" and "of_int b \<le> x" and "x < 2 ^ 53"
  shows "of_int b \<le> toDouble x"
proof -
  have x: "0 < x" using assms(1,2) by (smt (verit) of_int_0_less_iff order_less_le_trans)
  from toDouble_pos_scaled [OF x assms(3)] obtain n
    where td: "toDouble x = of_int (roundTiesToEven (x * 2 ^ n)) / 2 ^ n" by blast
  have "of_int (b * 2 ^ n) = of_int b * (2::rat) ^ n" by simp
  also have "\<dots> \<le> x * 2 ^ n" using assms(2) by simp
  finally have "b * 2 ^ n \<le> roundTiesToEven (x * 2 ^ n)" by (rule roundTiesToEven_ge)
  then have "(of_int (b * 2 ^ n) :: rat) \<le> of_int (roundTiesToEven (x * 2 ^ n))"
    by (simp only: of_int_le_iff)
  then show ?thesis by (simp add: td pos_le_divide_eq)
qed

lemma toDouble_of_int:
  assumes "0 \<le> b" and "b < 2 ^ 53"
  shows "toDouble (of_int b) = of_int b"
proof (cases "b = 0")
  case True
  then show ?thesis by (simp add: toDouble_def)
next
  case False
  with assms have b: "0 < b" by simp
  have lt: "(of_int b :: rat) < 2 ^ 53"
    using assms(2) by (metis of_int_less_iff of_int_numeral of_int_power)
  have "toDouble (of_int b) \<le> of_int b"
    using toDouble_le_int [of "of_int b" b] assms by simp
  moreover have "of_int b \<le> toDouble (of_int b)"
    using toDouble_ge_int [OF b _ lt] by simp
  ultimately show ?thesis by simp
qed


section \<open>Properties of the model\<close>

lemma blendCounts_eq:
  assumes "0 < batchSize" and "batchSize < 2 ^ 53"
    and "0 \<le> readRatio" and "readRatio \<le> 1"
  defines "w \<equiv> mathFloor (jsMul (of_int batchSize) (jsSub 1 readRatio))"
  shows "blendCounts batchSize readRatio = (batchSize - w, w)" and "0 \<le> w" and "w \<le> batchSize"
proof -
  have s0: "0 \<le> jsSub 1 readRatio"
    using assms(4) by (simp add: jsSub_def toDouble_nonneg)
  have s1: "jsSub 1 readRatio \<le> 1"
    using toDouble_le_int [of "1 - readRatio" 1] assms(3,4) by (simp add: jsSub_def)
  have b0: "(0::rat) < of_int batchSize" using assms(1) by simp
  have m0: "0 \<le> of_int batchSize * jsSub 1 readRatio"
    using s0 b0 by simp
  have m1: "of_int batchSize * jsSub 1 readRatio \<le> of_int batchSize"
    using s1 b0 by (simp add: mult_le_cancel_left1)
  have p0: "0 \<le> jsMul (of_int batchSize) (jsSub 1 readRatio)"
    using m0 by (simp add: jsMul_def toDouble_nonneg)
  have p1: "jsMul (of_int batchSize) (jsSub 1 readRatio) \<le> of_int batchSize"
    unfolding jsMul_def using m0 m1 assms(2) by (rule toDouble_le_int)
  show w0: "0 \<le> w" using p0 by (simp add: w_def mathFloor_def)
  show w1: "w \<le> batchSize" using p1 by (simp add: w_def mathFloor_def floor_le_iff)
  have "jsSub (of_int batchSize) (of_int w) = toDouble (of_int (batchSize - w))"
    by (simp add: jsSub_def)
  also have "\<dots> = of_int (batchSize - w)"
    using w0 w1 assms(2) by (intro toDouble_of_int) auto
  finally have r: "mathFloor (jsSub (of_int batchSize) (of_int w)) = batchSize - w"
    by (simp add: mathFloor_def)
  show "blendCounts batchSize readRatio = (batchSize - w, w)"
    using r by (simp add: blendCounts_def Let_def w_def)
qed

lemma sortInsert_mset: "mset (fst (sortInsert rnd k x ys)) = add_mset x (mset ys)"
proof (induction ys arbitrary: k)
  case Nil
  then show ?case by simp
next
  case (Cons y ys)
  obtain zs k' where a: "sortInsert rnd (Suc k) x ys = (zs, k')"
    by (cases "sortInsert rnd (Suc k) x ys")
  with Cons [of "Suc k"] have "mset zs = add_mset x (mset ys)" by simp
  with a show ?case by simp
qed

lemma count_list_replicate_if: "count_list (replicate n x) y = (if x = y then n else 0)"
  by (induction n) auto

lemma arraySort_mset: "mset (fst (arraySort rnd k xs)) = mset xs"
proof (induction xs arbitrary: k)
  case Nil
  then show ?case by simp
next
  case (Cons x xs)
  obtain ys k' where a: "arraySort rnd k xs = (ys, k')" by (cases "arraySort rnd k xs")
  with Cons [of k] have "mset ys = mset xs" by simp
  with a show ?case by (simp add: sortInsert_mset)
qed




lemma startTask_frame [simp]:
  "writeTxHashes (startTask cfg b s) = writeTxHashes s"
  "failedWrites (startTask cfg b s) = failedWrites s"
  "rejection (startTask cfg b s) = rejection s"
  "console (startTask cfg b s) = console s"
  "sentCount (startTask cfg b s) = sentCount s"
  "limiter (startTask cfg b s) = limiter s"
  "length (tasks (startTask cfg b s)) = length (tasks s)"
  by (simp_all add: startTask_def Let_def send_def split: opType.splits)

lemma started_frame [simp]:
  "writeTxHashes (started cfg r s) = writeTxHashes s"
  "failedWrites (started cfg r s) = failedWrites s"
  "rejection (started cfg r s) = rejection s"
  "console (started cfg r s) = console s"
  "sentCount (started cfg r s) = sentCount s"
  "limiter (started cfg r s) = snd r"
  "length (tasks (started cfg r s)) = length (tasks s)"
  by (simp_all add: started_def split: option.splits)

lemma settled_frame [simp]:
  "writeTxHashes (settled cfg s) = writeTxHashes s"
  "failedWrites (settled cfg s) = failedWrites s"
  "rejection (settled cfg s) = rejection s"
  "console (settled cfg s) = console s"
  "sentCount (settled cfg s) = sentCount s"
  "limiter (settled cfg s) = snd (pLimitNext (limiter s))"
  "length (tasks (settled cfg s)) = length (tasks s)"
  by (simp_all add: settled_def)

lemma rejectTask_frame:
  "rejection (rejectTask cfg b err s) = Some (case rejection s of None \<Rightarrow> err | Some first \<Rightarrow> first)"
  "console (rejectTask cfg b err s)
     = console s @ [ErrorInOp (address (accObj (tasks s ! b))) (opTypes cfg ! b) err]"
  "writeTxHashes (rejectTask cfg b err s) = writeTxHashes s"
  "failedWrites (rejectTask cfg b err s) = failedWrites s"
  by (simp_all add: rejectTask_def Let_def say_def setStage_def split: option.splits)


lemma promiseAll_Inr: "promiseAll (map Inr vs) = Inr vs"
  by (induction vs) auto

lemma promiseAll_all_ok:
  assumes "\<forall>i<n. \<exists>v. f i = Inr v"
  shows "promiseAll (map f [0..<n]) = Inr (map (\<lambda>i. projr (f i)) [0..<n])"
proof -
  have "map f [0..<n] = map Inr (map (\<lambda>i. projr (f i)) [0..<n])"
    using assms by auto
  then show ?thesis by (simp only: promiseAll_Inr)
qed

lemma sufficientAccounts_none:
  assumes "\<forall>i<length accs. \<exists>result. reply i = Inr result \<and> getStrkBalance result < MIN_BALANCE"
  shows "sufficientAccounts reply accs = Inr []"
proof -
  have ok: "\<forall>i<length accs. \<exists>v. reply i = Inr v" using assms by blast
  have low: "\<not> MIN_BALANCE \<le> getStrkBalance (fst p)"
    if "p \<in> set (zip (map (\<lambda>i. projr (reply i)) [0..<length accs]) accs)" for p
  proof -
    from that have "fst p \<in> set (map (\<lambda>i. projr (reply i)) [0..<length accs])"
      by (metis prod.collapse set_zip_leftD)
    then obtain i where "i < length accs" "fst p = projr (reply i)" by auto
    with assms show ?thesis by force
  qed
  show ?thesis
    unfolding sufficientAccounts_def promiseAll_all_ok [OF ok]
    using low by (auto simp: filter_empty_conv)
qed

lemma precheckCalls_no_batch_operation:
  "c \<in> set (precheckCalls reply accs) \<Longrightarrow> \<not> isBatchOperation c"
  by (auto simp: precheckCalls_def Let_def split: if_splits)


lemma count_update:
  "i < length ts \<Longrightarrow>
   length (filter P (ts[i := t])) + (if P (ts ! i) then 1 else 0)
     = length (filter P ts) + (if P t then 1 else 0)"
proof (induction ts arbitrary: i)
  case Nil
  then show ?case by simp
next
  case (Cons a ts)
  then show ?case by (cases i) auto
qed

lemma count_pos: "i < length ts \<Longrightarrow> P (ts ! i) \<Longrightarrow> 0 < length (filter P ts)"
  by (metis filter_empty_conv length_greater_0_conv nth_mem)



lemma wellFormedI:
  assumes "length (tasks s) = length (opTypes cfg)"
    and "limit (limiter s) = concurrency cfg"
    and "k \<le> length (opTypes cfg)"
    and "queue (limiter s) = [k..<length (opTypes cfg)]"
    and "\<And>b. b < length (opTypes cfg) \<Longrightarrow> (tStage (tasks s ! b) = Queued) = (k \<le> b)"
    and "\<And>b. b < length (opTypes cfg) \<Longrightarrow> stageFits (opTypes cfg ! b) (tStage (tasks s ! b))"
    and "activeCount (limiter s) = length (filter (\<lambda>t. isActive (tStage t)) (tasks s))"
    and "activeCount (limiter s) \<le> concurrency cfg"
  shows "wellFormed cfg s"
proof -
  have "length (opTypes cfg) - length (queue (limiter s)) = k" using assms(3,4) by simp
  then show ?thesis
    using assms unfolding wellFormed_def Let_def by (simp add: list_all_iff)
qed

lemma wellFormedD:
  assumes "wellFormed cfg s"
  defines "k \<equiv> length (opTypes cfg) - length (queue (limiter s))"
  shows "length (tasks s) = length (opTypes cfg)"
    and "limit (limiter s) = concurrency cfg"
    and "k \<le> length (opTypes cfg)"
    and "queue (limiter s) = [k..<length (opTypes cfg)]"
    and "\<And>b. b < length (opTypes cfg) \<Longrightarrow> (tStage (tasks s ! b) = Queued) = (k \<le> b)"
    and "\<And>b. b < length (opTypes cfg) \<Longrightarrow> stageFits (opTypes cfg ! b) (tStage (tasks s ! b))"
    and "activeCount (limiter s) = length (filter (\<lambda>t. isActive (tStage t)) (tasks s))"
    and "activeCount (limiter s) \<le> concurrency cfg"
  using assms unfolding wellFormed_def Let_def list_all_iff by simp_all

lemma tasks_startTask:
  "\<exists>t. tasks (startTask cfg b s) = (tasks s)[b := t] \<and> isActive (tStage t)
       \<and> stageFits (opTypes cfg ! b) (tStage t)"
proof -
  have ex: "\<exists>t. ts[b := u] = ts[b := t] \<and> isActive (tStage t) \<and> stageFits ty (tStage t)"
    if "isActive (tStage u)" "stageFits ty (tStage u)" for ts :: "task list" and u ty
    using that by blast
  show ?thesis
    by (cases "opTypes cfg ! b") (simp_all add: startTask_def Let_def send_def ex)
qed

text \<open>Starting the head of the queue.\<close>

lemma wellFormed_start:
  assumes wf: "length (tasks s) = length (opTypes cfg)"
    and k: "k < length (opTypes cfg)"
    and st: "\<And>b. b < length (opTypes cfg) \<Longrightarrow> (tStage (tasks s ! b) = Queued) = (k \<le> b)"
    and fit: "\<And>b. b < length (opTypes cfg) \<Longrightarrow> stageFits (opTypes cfg ! b) (tStage (tasks s ! b))"
    and a: "a = length (filter (\<lambda>t. isActive (tStage t)) (tasks s))"
    and c: "a < concurrency cfg"
  shows "wellFormed cfg (startTask cfg k
           (s\<lparr>limiter := \<lparr>limit = concurrency cfg, queue = [Suc k..<length (opTypes cfg)],
                          activeCount = a + 1\<rparr>\<rparr>))"
proof -
  let ?s1 = "s\<lparr>limiter := \<lparr>limit = concurrency cfg, queue = [Suc k..<length (opTypes cfg)],
                          activeCount = a + 1\<rparr>\<rparr>"
  obtain t where t: "tasks (startTask cfg k ?s1) = (tasks s)[k := t]" "isActive (tStage t)"
    "stageFits (opTypes cfg ! k) (tStage t)"
    using tasks_startTask [of cfg k ?s1] by auto
  have q: "tStage (tasks s ! k) = Queued" using st [OF k] by simp
  have cnt: "length (filter (\<lambda>t. isActive (tStage t)) ((tasks s)[k := t])) = a + 1"
    using count_update [of k "tasks s" "\<lambda>t. isActive (tStage t)" t] k wf q t(2) a by simp
  show ?thesis
  proof (rule wellFormedI [where k = "Suc k"])
    show "\<And>b. b < length (opTypes cfg) \<Longrightarrow>
        (tStage (tasks (startTask cfg k ?s1) ! b) = Queued) = (Suc k \<le> b)"
      using st t(2) wf k unfolding t(1) by (auto simp: nth_list_update)
    show "\<And>b. b < length (opTypes cfg) \<Longrightarrow>
        stageFits (opTypes cfg ! b) (tStage (tasks (startTask cfg k ?s1) ! b))"
      using fit t(3) wf k unfolding t(1) by (auto simp: nth_list_update)
  qed (use wf k c cnt t(1) in simp_all)
qed

lemma wellFormed_tryStart:
  assumes "wellFormed cfg s"
  shows "wellFormed cfg (started cfg (tryStart (limiter s)) s)"
proof -
  define k where "k = length (opTypes cfg) - length (queue (limiter s))"
  note w = wellFormedD [OF assms, folded k_def]
  show ?thesis
  proof (cases "activeCount (limiter s) < concurrency cfg \<and> k < length (opTypes cfg)")
    case False
    then have "started cfg (tryStart (limiter s)) s = s"
      using w(2,3,4) by (auto simp: started_def tryStart_def dequeue_def)
    with assms show ?thesis by simp
  next
    case True
    then have "tryStart (limiter s)
        = (Some k, (limiter s)\<lparr>queue := [Suc k..<length (opTypes cfg)],
                                 activeCount := activeCount (limiter s) + 1\<rparr>)"
      using w(2,4) by (simp add: tryStart_def dequeue_def upt_conv_Cons)
    moreover have "(limiter s)\<lparr>queue := [Suc k..<length (opTypes cfg)],
                                 activeCount := activeCount (limiter s) + 1\<rparr>
        = \<lparr>limit = concurrency cfg, queue = [Suc k..<length (opTypes cfg)],
           activeCount = activeCount (limiter s) + 1\<rparr>"
      using w(2) by simp
    ultimately have "started cfg (tryStart (limiter s)) s
        = startTask cfg k (s\<lparr>limiter := \<lparr>limit = concurrency cfg,
             queue = [Suc k..<length (opTypes cfg)], activeCount = activeCount (limiter s) + 1\<rparr>\<rparr>)"
      by (simp add: started_def)
    then show ?thesis
      using wellFormed_start [OF w(1) _ w(5,6,7)] True by simp
  qed
qed


lemma wellFormed_initDispatch: "wellFormed cfg (initDispatch cfg)"
proof -
  let ?n = "length (opTypes cfg)"
  let ?s0 = "\<lparr>tasks = replicate ?n emptyTask, limiter = pLimit (concurrency cfg) ?n,
                opIndex = 0, sentCount = 0, writeTxHashes = [], failedWrites = [],
                rejection = None, issued = [], console = [], slept = [], randomCalls = 0\<rparr>"
  have w0: "wellFormed cfg ?s0"
    by (rule wellFormedI [where k = 0]) (simp_all add: pLimit_def emptyTask_def)
  have "wellFormed cfg s \<Longrightarrow>
        wellFormed cfg (fold (\<lambda>op s. started cfg (tryStart (limiter s)) s) xs s)" for xs :: "opType list" and s
    by (induction xs arbitrary: s) (simp_all add: wellFormed_tryStart)
  from this [OF w0] show ?thesis by (simp add: initDispatch_def Let_def)
qed

lemma wellFormed_cong:
  "tasks s' = tasks s \<Longrightarrow> limiter s' = limiter s \<Longrightarrow> wellFormed cfg s' = wellFormed cfg s"
  by (simp add: wellFormed_def)

text \<open>An active operation moves to another active stage.\<close>

lemma wellFormed_move:
  assumes wf: "wellFormed cfg s" and b: "b < length (opTypes cfg)"
    and old: "isActive (tStage (tasks s ! b))"
    and new: "isActive (tStage t)" "stageFits (opTypes cfg ! b) (tStage t)"
    and s1: "tasks s1 = (tasks s)[b := t]" "limiter s1 = limiter s"
  shows "wellFormed cfg s1"
proof -
  define k where "k = length (opTypes cfg) - length (queue (limiter s))"
  note w = wellFormedD [OF wf, folded k_def]
  have nq: "tStage t \<noteq> Queued" using new(1) by auto
  have bk: "\<not> k \<le> b" using w(5) [OF b] old by auto
  have cnt: "length (filter (\<lambda>t. isActive (tStage t)) ((tasks s)[b := t]))
      = length (filter (\<lambda>t. isActive (tStage t)) (tasks s))"
    using count_update [of b "tasks s" "\<lambda>t. isActive (tStage t)" t] b w(1) old new(1) by simp
  show ?thesis
  proof (rule wellFormedI [where k = k])
    show "\<And>c. c < length (opTypes cfg) \<Longrightarrow> (tStage (tasks s1 ! c) = Queued) = (k \<le> c)"
      using w(5) nq bk w(1) b unfolding s1 by (auto simp: nth_list_update)
    show "\<And>c. c < length (opTypes cfg) \<Longrightarrow> stageFits (opTypes cfg ! c) (tStage (tasks s1 ! c))"
      using w(6) new(2) w(1) b unfolding s1 by (auto simp: nth_list_update)
  qed (use w cnt s1 in simp_all)
qed

text \<open>An active operation settles and the limiter moves on.\<close>

lemma wellFormed_settled:
  assumes wf: "wellFormed cfg s" and b: "b < length (opTypes cfg)"
    and old: "isActive (tStage (tasks s ! b))"
    and new: "\<not> isActive (tStage t)" "tStage t \<noteq> Queued" "stageFits (opTypes cfg ! b) (tStage t)"
    and s1: "tasks s1 = (tasks s)[b := t]" "limiter s1 = limiter s"
  shows "wellFormed cfg (settled cfg s1)"
proof -
  let ?n = "length (opTypes cfg)"
  define k where "k = ?n - length (queue (limiter s))"
  note w = wellFormedD [OF wf, folded k_def]
  let ?a = "activeCount (limiter s)"
  have bk: "\<not> k \<le> b" using w(5) [OF b] old by auto
  have cnt: "length (filter (\<lambda>t. isActive (tStage t)) (tasks s1)) + 1 = ?a"
    using count_update [of b "tasks s" "\<lambda>t. isActive (tStage t)" t] b w(1,7) old new(1) s1
    by simp
  have len: "length (tasks s1) = ?n" using w(1) s1 by simp
  have q1: "\<And>c. c < ?n \<Longrightarrow> (tStage (tasks s1 ! c) = Queued) = (k \<le> c)"
    using w(5) new(2) bk w(1) b unfolding s1 by (auto simp: nth_list_update)
  have f1: "\<And>c. c < ?n \<Longrightarrow> stageFits (opTypes cfg ! c) (tStage (tasks s1 ! c))"
    using w(6) new(3) w(1) b unfolding s1 by (auto simp: nth_list_update)
  show ?thesis
  proof (cases "k < ?n")
    case False
    then have kn: "k = ?n" using w(3) by simp
    have "settled cfg s1 = s1\<lparr>limiter := (limiter s)\<lparr>activeCount := ?a - 1\<rparr>\<rparr>"
      using w(4) kn by (simp add: settled_def pLimitNext_def dequeue_def started_def s1)
    moreover have "wellFormed cfg (s1\<lparr>limiter := (limiter s)\<lparr>activeCount := ?a - 1\<rparr>\<rparr>)"
    proof (rule wellFormedI [where k = k])
      show "\<And>c. c < ?n \<Longrightarrow>
          (tStage (tasks (s1\<lparr>limiter := (limiter s)\<lparr>activeCount := ?a - 1\<rparr>\<rparr>) ! c) = Queued) = (k \<le> c)"
        using q1 by simp
      show "\<And>c. c < ?n \<Longrightarrow> stageFits (opTypes cfg ! c)
          (tStage (tasks (s1\<lparr>limiter := (limiter s)\<lparr>activeCount := ?a - 1\<rparr>\<rparr>) ! c))"
        using f1 by simp
    qed (use w cnt len in simp_all)
    ultimately show ?thesis by simp
  next
    case True
    have "pLimitNext (limiter s1)
        = (Some k, \<lparr>limit = concurrency cfg, queue = [Suc k..<?n], activeCount = (?a - 1) + 1\<rparr>)"
      using w(2,4) True by (simp add: pLimitNext_def dequeue_def upt_conv_Cons s1)
    then have eq: "settled cfg s1
        = startTask cfg k (s1\<lparr>limiter := \<lparr>limit = concurrency cfg, queue = [Suc k..<?n],
                                           activeCount = (?a - 1) + 1\<rparr>\<rparr>)"
      by (simp add: settled_def started_def)
    have a1: "?a - 1 = length (filter (\<lambda>t. isActive (tStage t)) (tasks s1))"
      using cnt by simp
    have a2: "?a - 1 < concurrency cfg" using cnt w(8) by simp
    show ?thesis
      unfolding eq by (rule wellFormed_start [OF len True q1 f1 a1 a2])
  qed
qed

lemma plain_frame [simp]:
  "tasks (send c s) = tasks s" "limiter (send c s) = limiter s"
  "tasks (say e s) = tasks s" "limiter (say e s) = limiter s"
  "limiter (setStage b st s) = limiter s"
  "tasks (setStage b st s) = (tasks s)[b := (tasks s ! b)\<lparr>tStage := st\<rparr>]"
  by (simp_all add: send_def say_def setStage_def)

lemma wellFormed_resolveTask:
  assumes "wellFormed cfg s" "b < length (opTypes cfg)" "isActive (tStage (tasks s ! b))"
    "stageFits (opTypes cfg ! b) (Resolved res)"
    "tasks s0 = tasks s" "limiter s0 = limiter s"
  shows "wellFormed cfg (resolveTask cfg b res s0)"
  unfolding resolveTask_def
  by (rule wellFormed_settled [OF assms(1,2,3), where t = "(tasks s ! b)\<lparr>tStage := Resolved res\<rparr>"])
     (use assms in simp_all)

lemma wellFormed_rejectTask:
  assumes "wellFormed cfg s" "b < length (opTypes cfg)" "isActive (tStage (tasks s ! b))"
    "tasks s0 = tasks s" "limiter s0 = limiter s"
  shows "wellFormed cfg (rejectTask cfg b err s0)"
  unfolding rejectTask_def Let_def
  by (rule wellFormed_settled [OF assms(1,2,3), where t = "(tasks s ! b)\<lparr>tStage := Rejected err\<rparr>"])
     (use assms in simp_all)

lemma wellFormed_submitFailed:
  assumes "wellFormed cfg s" "b < length (opTypes cfg)" "isActive (tStage (tasks s ! b))"
    "opTypes cfg ! b = WriteOp"
  shows "wellFormed cfg (submitFailed cfg b err s)"
  unfolding submitFailed_def Let_def
  using assms
  by (auto intro!: wellFormed_resolveTask [where s = s] wellFormed_rejectTask [where s = s])

lemma wellFormed_step:
  assumes wf: "wellFormed cfg s" and st: "step cfg ev s = Some s'"
  shows "wellFormed cfg s'"
proof -
  note len = wellFormedD(1) [OF wf]
  note fit = wellFormedD(6) [OF wf]
  show ?thesis
  proof (cases ev)
    case (ReadReply b reply)
    with st len obtain attempt where b: "b < length (opTypes cfg)"
      and sg: "tStage (tasks s ! b) = AwaitRead attempt"
      by (auto split: if_splits stage.splits)
    have ty: "opTypes cfg ! b = ReadOp" using fit [OF b] sg by (cases "opTypes cfg ! b") auto
    show ?thesis
    proof (cases reply)
      case (Inr v)
      with st ReadReply b sg len have "s' = resolveTask cfg b (Some (ReadResult v)) s" by simp
      then show ?thesis
        using wellFormed_resolveTask [OF wf b, where ?s0.0 = s] sg ty by simp
    next
      case (Inl err)
      show ?thesis
      proof (cases "shouldRetry err attempt 3")
        case True
        with st ReadReply b sg len Inl
        have "tasks s' = (tasks s)[b := (tasks s ! b)\<lparr>tStage := Backoff attempt\<rparr>]"
          "limiter s' = limiter s" by auto
        then show ?thesis
          using wellFormed_move [OF wf b, where t = "(tasks s ! b)\<lparr>tStage := Backoff attempt\<rparr>"]
            sg ty True by (simp add: shouldRetry_def)
      next
        case False
        with st ReadReply b sg len Inl have "s' = rejectTask cfg b err s" by simp
        then show ?thesis
          using wellFormed_rejectTask [OF wf b, where ?s0.0 = s] sg by simp
      qed
    qed
  next
    case (BackoffElapsed b)
    with st len obtain attempt where b: "b < length (opTypes cfg)"
      and sg: "tStage (tasks s ! b) = Backoff attempt"
      by (auto split: if_splits stage.splits)
    have ty: "opTypes cfg ! b = ReadOp" using fit [OF b] sg by (cases "opTypes cfg ! b") auto
    from st BackoffElapsed b sg len
    have "tasks s' = (tasks s)[b := (tasks s ! b)\<lparr>tStage := AwaitRead (attempt + 1)\<rparr>]"
      "limiter s' = limiter s" by auto
    then show ?thesis
      using wellFormed_move [OF wf b, where t = "(tasks s ! b)\<lparr>tStage := AwaitRead (attempt + 1)\<rparr>"]
        sg ty fit [OF b] by simp
  next
    case (EstimateReply b reply)
    with st len have b: "b < length (opTypes cfg)" and sg: "tStage (tasks s ! b) = AwaitEstimate"
      by (auto split: if_splits stage.splits)
    have ty: "opTypes cfg ! b = WriteOp" using fit [OF b] sg by (cases "opTypes cfg ! b") auto
    show ?thesis
    proof (cases reply)
      case (Inr fee)
      with st EstimateReply b sg len
      have "tasks s' = (tasks s)[b := (tasks s ! b)\<lparr>tStage := AwaitNonce,
              maxFee := bigintDiv (fee * 12) 10\<rparr>]" "limiter s' = limiter s" by auto
      then show ?thesis
        using wellFormed_move [OF wf b, where t = "(tasks s ! b)\<lparr>tStage := AwaitNonce,
              maxFee := bigintDiv (fee * 12) 10\<rparr>"] sg ty by simp
    next
      case (Inl err)
      with st EstimateReply b sg len have "s' = rejectTask cfg b err s" by simp
      then show ?thesis
        using wellFormed_rejectTask [OF wf b, where ?s0.0 = s] sg by simp
    qed
  next
    case (NonceReply b reply)
    with st len have b: "b < length (opTypes cfg)" and sg: "tStage (tasks s ! b) = AwaitNonce"
      by (auto split: if_splits stage.splits)
    have ty: "opTypes cfg ! b = WriteOp" using fit [OF b] sg by (cases "opTypes cfg ! b") auto
    show ?thesis
    proof (cases reply)
      case (Inr n)
      with st NonceReply b sg len
      have "tasks s' = (tasks s)[b := (tasks s ! b)\<lparr>tStage := AwaitExecute n\<rparr>]"
        "limiter s' = limiter s" by auto
      then show ?thesis
        using wellFormed_move [OF wf b, where t = "(tasks s ! b)\<lparr>tStage := AwaitExecute n\<rparr>"]
          sg ty by simp
    next
      case (Inl err)
      with st NonceReply b sg len have "s' = submitFailed cfg b err s" by simp
      then show ?thesis using wellFormed_submitFailed [OF wf b _ ty] sg by simp
    qed
  next
    case (ExecuteReply b reply)
    with st len obtain n where b: "b < length (opTypes cfg)"
      and sg: "tStage (tasks s ! b) = AwaitExecute n"
      by (auto split: if_splits stage.splits)
    have ty: "opTypes cfg ! b = WriteOp" using fit [OF b] sg by (cases "opTypes cfg ! b") auto
    show ?thesis
    proof (cases reply)
      case (Inr h)
      with st ExecuteReply b sg len
      have "s' = resolveTask cfg b (Some (WriteResult h))
                   (s\<lparr>writeTxHashes := writeTxHashes s @ [h], sentCount := sentCount s + 1\<rparr>)"
        by simp
      then show ?thesis
        using wellFormed_resolveTask [OF wf b, where res = "Some (WriteResult h)"
            and ?s0.0 = "s\<lparr>writeTxHashes := writeTxHashes s @ [h], sentCount := sentCount s + 1\<rparr>"]
          sg ty by simp
    next
      case (Inl err)
      with st ExecuteReply b sg len have "s' = submitFailed cfg b err s" by simp
      then show ?thesis using wellFormed_submitFailed [OF wf b _ ty] sg by simp
    qed
  qed
qed

lemma wellFormed_exec:
  "wellFormed cfg s \<Longrightarrow> exec cfg evs s = Some s' \<Longrightarrow> wellFormed cfg s'"
proof (induction evs arbitrary: s)
  case Nil
  then show ?case by simp
next
  case (Cons ev evs)
  then show ?case by (auto split: option.splits dest: wellFormed_step)
qed















lemma rwr_plain_frame [simp]:
  "rwrTasks (rwrSend c s) = rwrTasks s" "rwrLimiter (rwrSend c s) = rwrLimiter s"
  "nonceCounters (rwrSend c s) = nonceCounters s" "rwrHashes (rwrSend c s) = rwrHashes s"
  "rwrSlept (rwrSend c s) = rwrSlept s" "rwrCalls (rwrSend c s) = rwrCalls s @ [c]"
  "rwrLimiter (rwrSetStage b st s) = rwrLimiter s"
  "nonceCounters (rwrSetStage b st s) = nonceCounters s"
  "rwrHashes (rwrSetStage b st s) = rwrHashes s"
  "rwrSlept (rwrSetStage b st s) = rwrSlept s"
  "rwrCalls (rwrSetStage b st s) = rwrCalls s"
  "rwrTasks (rwrSetStage b st s) = (rwrTasks s)[b := (rwrTasks s ! b)\<lparr>rStage := st\<rparr>]"
  by (simp_all add: rwrSend_def rwrSetStage_def)

lemma rwrStartTask_frame [simp]:
  "rwrHashes (rwrStartTask cfg b s) = rwrHashes s"
  "rwrSlept (rwrStartTask cfg b s) = rwrSlept s"
  "rwrLimiter (rwrStartTask cfg b s) = rwrLimiter s"
  "length (rwrTasks (rwrStartTask cfg b s)) = length (rwrTasks s)"
  by (simp_all add: rwrStartTask_def Let_def)

lemma rwrStarted_frame [simp]:
  "rwrHashes (rwrStarted cfg r s) = rwrHashes s"
  "rwrSlept (rwrStarted cfg r s) = rwrSlept s"
  "rwrLimiter (rwrStarted cfg r s) = snd r"
  "length (rwrTasks (rwrStarted cfg r s)) = length (rwrTasks s)"
  by (simp_all add: rwrStarted_def split: option.splits)

lemma rwrFinish_frame [simp]:
  "rwrHashes (rwrFinish cfg b res s) = rwrHashes s"
  "rwrSlept (rwrFinish cfg b res s) = rwrSlept s"
  "length (rwrTasks (rwrFinish cfg b res s)) = length (rwrTasks s)"
  by (simp_all add: rwrFinish_def Let_def)











lemma rwrStep_hashes:
  "rwrStep cfg ev s = Some s' \<Longrightarrow> rwrHashes s' = rwrHashes s @ rwrSubmittedHash ev"
  by (cases ev) (auto split: if_splits rwrStage.splits sum.splits simp: Let_def)

lemma rwrExec_hashes:
  "rwrExec cfg evs s = Some s' \<Longrightarrow>
   rwrHashes s' = rwrHashes s @ concat (map rwrSubmittedHash evs)"
proof (induction evs arbitrary: s)
  case Nil
  then show ?case by simp
next
  case (Cons ev evs)
  then show ?case by (auto split: option.splits dest: rwrStep_hashes)
qed

lemma rwrInit_hashes: "rwrHashes (rwrInit cfg) = []"
proof -
  have "rwrHashes (fold (\<lambda>b s. rwrStarted cfg (tryStart (rwrLimiter s)) s) xs s) = rwrHashes s"
    for xs :: "nat list" and s
    by (induction xs arbitrary: s) simp_all
  then show ?thesis by (simp add: rwrInit_def Let_def)
qed







lemma resolveTask_frame [simp]:
  "writeTxHashes (resolveTask cfg b res s) = writeTxHashes s"
  "failedWrites (resolveTask cfg b res s) = failedWrites s"
  "rejection (resolveTask cfg b res s) = rejection s"
  "console (resolveTask cfg b res s) = console s"
  by (simp_all add: resolveTask_def setStage_def)

lemma setStage_frame [simp]:
  "writeTxHashes (setStage b st s) = writeTxHashes s"
  "failedWrites (setStage b st s) = failedWrites s"
  "rejection (setStage b st s) = rejection s"
  "console (setStage b st s) = console s"
  by (simp_all add: setStage_def)

lemma submitFailed_hashes [simp]:
  "writeTxHashes (submitFailed cfg b err s) = writeTxHashes s"
  by (simp add: submitFailed_def Let_def rejectTask_frame say_def)

lemma step_hashes:
  "step cfg ev s = Some s' \<Longrightarrow> writeTxHashes s' = writeTxHashes s @ submitted ev"
  by (cases ev)
     (auto split: if_splits stage.splits sum.splits
           simp: rejectTask_frame send_def setStage_def)

lemma exec_hashes:
  "exec cfg evs s = Some s' \<Longrightarrow> writeTxHashes s' = writeTxHashes s @ concat (map submitted evs)"
proof (induction evs arbitrary: s)
  case Nil
  then show ?case by simp
next
  case (Cons ev evs)
  then show ?case by (auto split: option.splits dest: step_hashes)
qed

lemma initDispatch_hashes: "writeTxHashes (initDispatch cfg) = []"
proof -
  have "writeTxHashes (fold (\<lambda>op s. started cfg (tryStart (limiter s)) s) xs s) = writeTxHashes s"
    for xs :: "opType list" and s
    by (induction xs arbitrary: s) simp_all
  then show ?thesis by (simp add: initDispatch_def Let_def)
qed

lemma retryWrite_effect:
  "writeTxHashes (retryWrite r fw s) = writeTxHashes s @ retried r"
  "issued (retryWrite r fw s) = issued s @ retryCalls r fw"
  "failedWrites (retryWrite r fw s) = failedWrites s"
  "tasks (retryWrite r fw s) = tasks s"
  by (simp_all add: retryWrite_def retried_def retryCalls_def Let_def send_def say_def
                split: sum.splits)

lemma retryFailedWrites_effect:
  "writeTxHashes (retryFailedWrites replies i fws s)
     = writeTxHashes s @ concat (map (\<lambda>j. retried (replies j)) [i..<i + length fws])"
  "issued (retryFailedWrites replies i fws s)
     = issued s @ concat (map (\<lambda>(j, fw). retryCalls (replies j) fw) (enumerate i fws))"
  "failedWrites (retryFailedWrites replies i fws s) = failedWrites s"
  "tasks (retryFailedWrites replies i fws s) = tasks s"
proof (induction fws arbitrary: i s)
  case Nil
  { case 1 show ?case by simp }
  { case 2 show ?case by simp }
  { case 3 show ?case by simp }
  { case 4 show ?case by simp }
next
  case (Cons fw fws)
  { case 1
    have u: "[i..<Suc (i + length fws)] = i # [Suc i..<Suc (i + length fws)]"
      by (simp add: upt_conv_Cons del: upt_Suc)
    show ?case by (simp add: Cons.IH(1) retryWrite_effect u del: upt_Suc) }
  { case 2 show ?case by (simp add: Cons.IH(2) retryWrite_effect) }
  { case 3 show ?case by (simp add: Cons.IH(3) retryWrite_effect) }
  { case 4 show ?case by (simp add: Cons.IH(4) retryWrite_effect) }
qed

lemma tasks_startTask_other: "b \<noteq> k \<Longrightarrow> tasks (startTask cfg k s) ! b = tasks s ! b"
  by (cases "opTypes cfg ! k") (simp_all add: startTask_def Let_def send_def)

lemma tasks_settled_other:
  "b \<notin> set (queue (limiter s)) \<Longrightarrow> tasks (settled cfg s) ! b = tasks s ! b"
  by (cases "queue (limiter s)")
     (auto simp: settled_def pLimitNext_def dequeue_def started_def tasks_startTask_other)

lemma active_not_queued:
  assumes wf: "wellFormed cfg s" and b: "b < length (opTypes cfg)"
    and act: "isActive (tStage (tasks s ! b))"
  shows "b \<notin> set (queue (limiter s))"
proof -
  define k where "k = length (opTypes cfg) - length (queue (limiter s))"
  note w = wellFormedD [OF wf, folded k_def]
  have "\<not> k \<le> b" using w(5) [OF b] act by auto
  then show ?thesis unfolding w(4) by simp
qed

text \<open>What the inner handler does with the error of a nonce fetch or a submission.\<close>

lemma submitFailed_cases:
  assumes wf: "wellFormed cfg s" and b: "b < length (opTypes cfg)"
    and act: "isActive (tStage (tasks s ! b))"
  shows "includes_str (errToString err) ''Invalid transaction nonce'' \<Longrightarrow>
           failedWrites (submitFailed cfg b err s)
             = failedWrites s @ [\<lparr>fwAccount = accObj (tasks s ! b),
                                   fwBundleCalls = bundleCalls (tasks s ! b),
                                   fwProvIdx = provIdx (tasks s ! b)\<rparr>]
           \<and> tStage (tasks (submitFailed cfg b err s) ! b) = Resolved None
           \<and> rejection (submitFailed cfg b err s) = rejection s"
    and "\<not> includes_str (errToString err) ''Invalid transaction nonce'' \<Longrightarrow>
         \<not> includes_str (errToString err) ''Rate limit reached'' \<Longrightarrow>
           failedWrites (submitFailed cfg b err s) = failedWrites s
           \<and> tStage (tasks (submitFailed cfg b err s) ! b) = Resolved None
           \<and> rejection (submitFailed cfg b err s) = rejection s"
    and "\<not> includes_str (errToString err) ''Invalid transaction nonce'' \<Longrightarrow>
         includes_str (errToString err) ''Rate limit reached'' \<Longrightarrow>
           failedWrites (submitFailed cfg b err s) = failedWrites s
           \<and> tStage (tasks (submitFailed cfg b err s) ! b) = Rejected err
           \<and> rejection (submitFailed cfg b err s)
               = Some (case rejection s of None \<Rightarrow> err | Some first \<Rightarrow> first)"
proof -
  have len: "b < length (tasks s)" using wellFormedD(1) [OF wf] b by simp
  have nq: "b \<notin> set (queue (limiter s))" by (rule active_not_queued [OF wf b act])
  have keep: "tStage (tasks (settled cfg s1) ! b) = st"
    if "limiter s1 = limiter s" "tasks s1 = (tasks s)[b := (tasks s ! b)\<lparr>tStage := st\<rparr>]" for s1 st
    using tasks_settled_other [of b s1 cfg] nq that len by simp
  {
    assume "includes_str (errToString err) ''Invalid transaction nonce''"
    then show "failedWrites (submitFailed cfg b err s)
             = failedWrites s @ [\<lparr>fwAccount = accObj (tasks s ! b),
                                   fwBundleCalls = bundleCalls (tasks s ! b),
                                   fwProvIdx = provIdx (tasks s ! b)\<rparr>]
           \<and> tStage (tasks (submitFailed cfg b err s) ! b) = Resolved None
           \<and> rejection (submitFailed cfg b err s) = rejection s"
      by (simp add: submitFailed_def Let_def say_def resolveTask_def keep)
  next
    assume "\<not> includes_str (errToString err) ''Invalid transaction nonce''"
      "\<not> includes_str (errToString err) ''Rate limit reached''"
    then show "failedWrites (submitFailed cfg b err s) = failedWrites s
           \<and> tStage (tasks (submitFailed cfg b err s) ! b) = Resolved None
           \<and> rejection (submitFailed cfg b err s) = rejection s"
      by (simp add: submitFailed_def Let_def say_def resolveTask_def keep)
  next
    assume "\<not> includes_str (errToString err) ''Invalid transaction nonce''"
      "includes_str (errToString err) ''Rate limit reached''"
    then show "failedWrites (submitFailed cfg b err s) = failedWrites s
           \<and> tStage (tasks (submitFailed cfg b err s) ! b) = Rejected err
           \<and> rejection (submitFailed cfg b err s)
               = Some (case rejection s of None \<Rightarrow> err | Some first \<Rightarrow> first)"
      by (simp add: submitFailed_def Let_def rejectTask_frame)
         (simp add: rejectTask_def Let_def say_def keep)
  }
qed

lemma persistBatchInfo_frame [simp]:
  "printed (persistBatchInfo env r) = printed r"
  "readsReturned (persistBatchInfo env r) = readsReturned r"
  by (simp_all add: persistBatchInfo_def Let_def split: sum.splits)

lemma count_list_filter: "count_list xs a = length (filter (\<lambda>x. x = a) xs)"
  by (induction xs) auto

lemma buildOpTypes_reads:
  "count_list (buildOpTypes rnd nReads nWrites) ReadOp = nReads"
proof -
  have "mset (buildOpTypes rnd nReads nWrites)
      = mset (replicate nReads ReadOp @ replicate nWrites WriteOp)"
    by (simp add: buildOpTypes_def arraySort_mset)
  then have "count_list (buildOpTypes rnd nReads nWrites) ReadOp
      = count_list (replicate nReads ReadOp @ replicate nWrites WriteOp) ReadOp"
    by (metis count_mset)
  then show ?thesis by (simp add: count_list_replicate_if)
qed

text \<open>When every operation has resolved, the read results are as many as the read tags.\<close>

lemma allResolved_reads:
  assumes wf: "wellFormed cfg s" and ar: "allResolved s"
  shows "length (filter (\<lambda>t. isReadResult (tStage t)) (tasks s)) = count_list (opTypes cfg) ReadOp"
proof -
  note len = wellFormedD(1) [OF wf]
  have "map (\<lambda>t. isReadResult (tStage t)) (tasks s) = map (\<lambda>ty. ty = ReadOp) (opTypes cfg)"
  proof (rule nth_equalityI)
    show "length (map (\<lambda>t. isReadResult (tStage t)) (tasks s))
        = length (map (\<lambda>ty. ty = ReadOp) (opTypes cfg))" using len by simp
  next
    fix b assume "b < length (map (\<lambda>t. isReadResult (tStage t)) (tasks s))"
    then have b: "b < length (opTypes cfg)" using len by simp
    have r: "isResolved (tStage (tasks s ! b))"
      using ar b len by (simp add: allResolved_def list_all_length)
    have f: "stageFits (opTypes cfg ! b) (tStage (tasks s ! b))" using wellFormedD(6) [OF wf b] .
    have "isReadResult (tStage (tasks s ! b)) = (opTypes cfg ! b = ReadOp)"
      using r f by (cases "(opTypes cfg ! b, tStage (tasks s ! b))" rule: stageFits.cases) auto
    then show "map (\<lambda>t. isReadResult (tStage t)) (tasks s) ! b
        = map (\<lambda>ty. ty = ReadOp) (opTypes cfg) ! b" using b len by simp
  qed
  then have "length (filter id (map (\<lambda>t. isReadResult (tStage t)) (tasks s)))
      = length (filter id (map (\<lambda>ty. ty = ReadOp) (opTypes cfg)))" by simp
  then show ?thesis by (simp add: filter_map comp_def count_list_filter)
qed


text \<open>What a blend run returns once the dispatch has been followed to a state.\<close>

lemma runBlend_rejected:
  assumes "promiseAll (map (beforeBalanceReply env)
             [0..<length (blendUsedAccounts accs batchSize bsize readRatio)]) = Inr before"
    and "0 \<le> fst (blendCounts batchSize readRatio)" and "0 \<le> snd (blendCounts batchSize readRatio)"
    and "exec (blendConfig env accs batchSize bsize readRatio conc nProviders) (dispatchEvents env)
           (initDispatch (blendConfig env accs batchSize bsize readRatio conc nProviders)) = Some s"
    and "rejection s = Some err"
  shows "status (runBlend env accs batchSize bsize readRatio conc nProviders calls0) = Threw err"
    and "printed (runBlend env accs batchSize bsize readRatio conc nProviders calls0) = None"
  using assms by (simp_all add: runBlend_def Let_def)

lemma runBlend_completed:
  assumes "promiseAll (map (beforeBalanceReply env)
             [0..<length (blendUsedAccounts accs batchSize bsize readRatio)]) = Inr before"
    and "0 \<le> fst (blendCounts batchSize readRatio)" and "0 \<le> snd (blendCounts batchSize readRatio)"
    and "exec (blendConfig env accs batchSize bsize readRatio conc nProviders) (dispatchEvents env)
           (initDispatch (blendConfig env accs batchSize bsize readRatio conc nProviders)) = Some s"
    and "rejection s = None" and "allResolved s"
    and "promiseAll (map (afterBalanceReply env)
             [0..<length (blendUsedAccounts accs batchSize bsize readRatio)]) = Inr after"
  shows "printed (runBlend env accs batchSize bsize readRatio conc nProviders calls0)
           = Some (makeReport ''blend'' (fst (blendCounts batchSize readRatio))
                     (writeTxHashes s
                      @ concat (map (\<lambda>j. retried (retryReply env j)) [0..<length (failedWrites s)]))
                     [])"
    and "readsReturned (runBlend env accs batchSize bsize readRatio conc nProviders calls0)
           = length (filter (\<lambda>t. isReadResult (tStage t)) (tasks s))"
  using assms by (simp_all add: runBlend_def Let_def retryFailedWrites_effect)





text \<open>What the outer handler does: the operation is rejected and the error logged.\<close>

lemma rejectTask_cases:
  assumes wf: "wellFormed cfg s" and b: "b < length (opTypes cfg)"
    and act: "isActive (tStage (tasks s ! b))"
  shows "tStage (tasks (rejectTask cfg b err s) ! b) = Rejected err"
    and "rejection (rejectTask cfg b err s)
           = Some (case rejection s of None \<Rightarrow> err | Some first \<Rightarrow> first)"
    and "console (rejectTask cfg b err s)
           = console s @ [ErrorInOp (address (accObj (tasks s ! b))) (opTypes cfg ! b) err]"
proof -
  have len: "b < length (tasks s)" using wellFormedD(1) [OF wf] b by simp
  have nq: "b \<notin> set (queue (limiter s))" by (rule active_not_queued [OF wf b act])
  have keep: "tStage (tasks (settled cfg s1) ! b) = st"
    if "limiter s1 = limiter s" "tasks s1 = (tasks s)[b := (tasks s ! b)\<lparr>tStage := st\<rparr>]" for s1 st
    using tasks_settled_other [of b s1 cfg] nq that len by simp
  show "tStage (tasks (rejectTask cfg b err s) ! b) = Rejected err"
    by (simp add: rejectTask_def Let_def say_def keep)
  show "rejection (rejectTask cfg b err s)
           = Some (case rejection s of None \<Rightarrow> err | Some first \<Rightarrow> first)"
    and "console (rejectTask cfg b err s)
           = console s @ [ErrorInOp (address (accObj (tasks s ! b))) (opTypes cfg ! b) err]"
    by (simp_all add: rejectTask_frame)
qed

lemma submitFailed_console:
  "console (submitFailed cfg b err s)
     = console s
       @ [if includes_str (errToString err) ''Invalid transaction nonce''
          then NonceErrorLogged (address (accObj (tasks s ! b)))
          else if includes_str (errToString err) ''Rate limit reached''
          then ErrorInOp (address (accObj (tasks s ! b))) (opTypes cfg ! b) err
          else SkippingAccount (address (accObj (tasks s ! b))) err]"
  by (simp add: submitFailed_def Let_def say_def rejectTask_frame)

lemma write_stage_type:
  assumes wf: "wellFormed cfg s" and b: "b < length (opTypes cfg)"
    and st: "tStage (tasks s ! b) = AwaitEstimate \<or> tStage (tasks s ! b) = AwaitNonce
             \<or> tStage (tasks s ! b) = AwaitExecute n"
  shows "opTypes cfg ! b = WriteOp"
  using wellFormedD(6) [OF wf b] st by (cases "opTypes cfg ! b") auto

lemma read_stage_type:
  assumes wf: "wellFormed cfg s" and b: "b < length (opTypes cfg)"
    and st: "tStage (tasks s ! b) = AwaitRead attempt \<or> tStage (tasks s ! b) = Backoff attempt"
  shows "opTypes cfg ! b = ReadOp"
    and "tStage (tasks s ! b) = AwaitRead attempt \<Longrightarrow> attempt < 3"
    and "tStage (tasks s ! b) = Backoff attempt \<Longrightarrow> attempt < 2"
  using wellFormedD(6) [OF wf b] st by (cases "opTypes cfg ! b"; auto)+

lemma runRwr_completed:
  assumes "rwrSubmitted env accs batchSize bsize conc = Some s" and "allSettled s"
  shows "printed (runRwr env accs batchSize bsize conc calls0)
           = Some (makeReport ''rwr'' (batchSize * 2) (rwrHashes s)
                     (validReceiptsOf (rwrReplies env) (rwrHashes s)))"
  using assms by (simp add: runRwr_def Let_def)


lemma rwrSubmitted_hashes:
  assumes "rwrSubmitted env accs batchSize bsize conc = Some s"
  shows "rwrHashes s = concat (map rwrSubmittedHash (rwrEvents env))"
  using rwrExec_hashes [OF assms [unfolded rwrSubmitted_def]] by (simp add: rwrInit_hashes)



text \<open>The rwr dispatch sends no contract read.\<close>

lemma rwrStarted_reads [simp]:
  "filter isContractRead (rwrCalls (rwrStarted cfg r s)) = filter isContractRead (rwrCalls s)"
  by (simp add: rwrStarted_def rwrStartTask_def Let_def rwrSend_def split: option.splits)

lemma rwrFinish_reads [simp]:
  "filter isContractRead (rwrCalls (rwrFinish cfg b res s)) = filter isContractRead (rwrCalls s)"
  by (simp add: rwrFinish_def Let_def)







section \<open>Claims\<close>

text \<open>
  C1. As stated (for every batchSize and readRatio in [0,1] the submitter attempts
  \<open>floor(batchSize * (1 - readRatio))\<close> writes and \<open>batchSize - writes\<close> reads, so that
  reads + writes = batchSize) the claim fails on the raw-RPC script it cites, which
  clamps both counts to at least 1 and floors them independently: for batchSize 5 and
  readRatio 0.5 it runs 2 reads and 2 writes.
\<close>

theorem rawRpcCounts_sum_counterexample:
  "fst (rawRpcCounts 5 (1 / 2)) + snd (rawRpcCounts 5 (1 / 2)) \<noteq> 5"
  by code_simp

text \<open>
  C1, amended. In blend mode of \<open>runBatchTest\<close>, for every integer batchSize with
  \<open>0 < batchSize < 2^53\<close> and every readRatio in [0,1]: the write count is
  \<open>floor(batchSize * (1 - readRatio))\<close> in binary64 arithmetic, the read count is
  \<open>batchSize - writes\<close>, both are non-negative and they add up to batchSize. For
  batchSize 10 and readRatio 0.2 this is 2 reads and 8 writes, and the raw-RPC script
  computes the same pair there.
\<close>

theorem blendCounts_split:
  assumes "0 < batchSize" and "batchSize < 2 ^ 53"
    and "0 \<le> readRatio" and "readRatio \<le> 1"
  shows "snd (blendCounts batchSize readRatio)
           = mathFloor (jsMul (of_int batchSize) (jsSub 1 readRatio))
       \<and> fst (blendCounts batchSize readRatio)
           = batchSize - snd (blendCounts batchSize readRatio)
       \<and> fst (blendCounts batchSize readRatio) + snd (blendCounts batchSize readRatio)
           = batchSize
       \<and> 0 \<le> fst (blendCounts batchSize readRatio)
       \<and> 0 \<le> snd (blendCounts batchSize readRatio)
       \<and> blendCounts 10 (toDouble (1 / 5)) = (2, 8)
       \<and> rawRpcCounts 10 (toDouble (1 / 5)) = (2, 8)"
proof -
  note bc = blendCounts_eq [OF assms]
  have sc1: "blendCounts 10 (toDouble (1 / 5)) = (2, 8)" by code_simp
  have sc2: "rawRpcCounts 10 (toDouble (1 / 5)) = (2, 8)" by code_simp
  show ?thesis
    using bc(2,3) sc1 sc2 unfolding bc(1) by simp
qed

theorem blendCounts_split_witness:
  "(0::int) < 10 \<and> (10::int) < 2 ^ 53 \<and> (0::rat) \<le> 1 / 4 \<and> (1 / 4 :: rat) \<le> 1
     \<and> fst (blendCounts 10 (1 / 4)) + snd (blendCounts 10 (1 / 4)) = 10
     \<and> 0 \<le> fst (blendCounts 10 (1 / 4))"
  using blendCounts_split [of 10 "1 / 4"] by simp


text \<open>
  C9. In blend mode the list of operation tags that is executed is a permutation of
  \<open>numReads\<close> read tags followed by \<open>numWrites\<close> write tags, whatever values
  \<open>Math.random()\<close> returns to the comparator of the sort: it contains exactly
  \<open>numReads\<close> read tags and \<open>numWrites\<close> write tags and nothing else.
\<close>

theorem buildOpTypes_permutation:
  "mset (buildOpTypes rnd nReads nWrites)
     = mset (replicate nReads ReadOp @ replicate nWrites WriteOp)
   \<and> count_list (buildOpTypes rnd nReads nWrites) ReadOp = nReads
   \<and> count_list (buildOpTypes rnd nReads nWrites) WriteOp = nWrites
   \<and> length (buildOpTypes rnd nReads nWrites) = nReads + nWrites"
proof -
  let ?xs = "buildOpTypes rnd nReads nWrites"
  have m: "mset ?xs = mset (replicate nReads ReadOp @ replicate nWrites WriteOp)"
    by (simp add: buildOpTypes_def arraySort_mset)
  have c: "count_list ?xs t = count_list (replicate nReads ReadOp @ replicate nWrites WriteOp) t" for t
    using m by (metis count_mset)
  have l: "length ?xs = nReads + nWrites"
    using m by (metis length_append length_replicate size_mset)
  show ?thesis using m c [of ReadOp] c [of WriteOp] l by (simp add: count_list_replicate_if)
qed


text \<open>
  C2. If the balance of every account of the pool (every deployed account) is read
  and lies below the minimum of 0.05 STRK, \<open>runBatchTest\<close> throws the precondition
  error (no sufficient balance; no deployed account, if the deployment check left
  none), prints no report, and has sent nothing but the nonce and balance queries of
  the checks: no contract read, no fee estimate and no transaction.
\<close>

theorem runBatchTest_no_sufficient_balance:
  assumes "\<forall>i < length (deployedAccounts (nonceCheckReply env) accs).
             \<exists>result. balanceReply env i = Inr result \<and> getStrkBalance result < MIN_BALANCE"
  shows "status (runBatchTest env accs batchSize bundle readRatio mode conc nProviders)
           = Threw (if deployedAccounts (nonceCheckReply env) accs = [] then noDeployedAccounts
                    else noSufficientBalance)
       \<and> printed (runBatchTest env accs batchSize bundle readRatio mode conc nProviders) = None
       \<and> (\<forall>c \<in> set (calls (runBatchTest env accs batchSize bundle readRatio mode conc nProviders)).
             \<not> isBatchOperation c)"
proof -
  have pre: "precheckMadara (nonceCheckReply env) (balanceReply env) accs
        = Inl (if deployedAccounts (nonceCheckReply env) accs = [] then noDeployedAccounts
               else noSufficientBalance)"
    using sufficientAccounts_none [OF assms] by (simp add: precheckMadara_def Let_def)
  show ?thesis
    using precheckCalls_no_batch_operation
    by (simp add: runBatchTest_def Let_def pre)
qed

theorem runBatchTest_no_sufficient_balance_witness:
  "deployedAccounts (nonceCheckReply (quietRemote (10 ^ 16) [])) [account1, account2]
     = [account1, account2]
   \<and> getStrkBalance (10 ^ 16, 0) < MIN_BALANCE
   \<and> status (runBatchTest (quietRemote (10 ^ 16) []) [account1, account2] 10 1 (toDouble (1 / 5))
               ''blend'' 5 3) = Threw noSufficientBalance
   \<and> printed (runBatchTest (quietRemote (10 ^ 16) []) [account1, account2] 10 1 (toDouble (1 / 5))
               ''blend'' 5 3) = None"
proof -
  have d: "deployedAccounts (nonceCheckReply (quietRemote (10 ^ 16) [])) [account1, account2]
     = [account1, account2]" by code_simp
  have b: "getStrkBalance (10 ^ 16, 0) < MIN_BALANCE" by code_simp
  have h: "\<forall>i < length (deployedAccounts (nonceCheckReply (quietRemote (10 ^ 16) [])) [account1, account2]).
             \<exists>result. balanceReply (quietRemote (10 ^ 16) []) i = Inr result
                \<and> getStrkBalance result < MIN_BALANCE"
    using b by (simp add: d quietRemote_def)
  from runBatchTest_no_sufficient_balance [OF h, of 10 1 "toDouble (1 / 5)" "''blend''" 5 3]
  show ?thesis using d b by simp
qed

text \<open>
  C10. In the Sepolia variant of \<open>runBatchTest\<close> and in \<open>runOptimizedBatchTest\<close>, when
  some but fewer than batchSize accounts have a sufficient balance, the precondition
  check does not throw: it continues with those accounts and with batchSize set to
  their number (a warning is logged), and the read/write split is computed from that
  number, so the reads and writes attempted add up to fewer than the batch size that
  was requested.
\<close>

theorem precheckSepolia_clamps_batchSize:
  assumes "sufficientAccounts reply accs = Inr sufficient"
    and "0 < length sufficient" and "int (length sufficient) < batchSize"
    and "int (length sufficient) < 2 ^ 53"
    and "0 \<le> readRatio" and "readRatio \<le> 1"
  shows "precheckSepolia reply accs batchSize = Inr (sufficient, int (length sufficient))
       \<and> fst (blendCounts (int (length sufficient)) readRatio)
           + snd (blendCounts (int (length sufficient)) readRatio) = int (length sufficient)
       \<and> fst (blendCounts (int (length sufficient)) readRatio)
           + snd (blendCounts (int (length sufficient)) readRatio) < batchSize"
proof -
  have n: "0 < int (length sufficient)" using assms(2) by simp
  note bc = blendCounts_eq [OF n assms(4,5,6)]
  show ?thesis
    using assms(1,2,3) unfolding bc(1) by (simp add: precheckSepolia_def)
qed

theorem precheckSepolia_clamps_batchSize_witness:
  "sufficientAccounts (\<lambda>i. if i = 0 then Inr (10 ^ 18, 0) else Inr (10 ^ 16, 0)) [account1, account2]
     = Inr [account1]
   \<and> precheckSepolia (\<lambda>i. if i = 0 then Inr (10 ^ 18, 0) else Inr (10 ^ 16, 0)) [account1, account2] 10
       = Inr ([account1], 1)
   \<and> fst (blendCounts 1 (toDouble (1 / 5))) + snd (blendCounts 1 (toDouble (1 / 5))) = 1"
proof -
  have h: "sufficientAccounts (\<lambda>i. if i = 0 then Inr (10 ^ 18, 0) else Inr (10 ^ 16, 0))
             [account1, account2] = Inr [account1]"
    by code_simp
  have r0: "0 \<le> toDouble (1 / 5)" by code_simp
  have r1: "toDouble (1 / 5) \<le> 1" by code_simp
  from precheckSepolia_clamps_batchSize [OF h _ _ _ r0 r1, of 10]
  show ?thesis using h by simp
qed














text \<open>
  C5. As stated (no failure of an individual operation is fatal; the run always
  completes and prints the summary) the claim fails in blend mode: the handler of an
  operation logs the error and throws it again, which rejects \<open>Promise.all(ops)\<close>. With
  one read and one write, the write is submitted and the read fails with an error that
  is not a rate limit: \<open>runBatchTest\<close> throws that error and prints no report.
\<close>

theorem read_failure_ends_the_run:
  "status (runBatchTest
             (quietRemote (10 ^ 18)
                [EstimateReply 1 (Inr 100), NonceReply 1 (Inr 7), ExecuteReply 1 (Inr ''0xe1''),
                 ReadReply 0 (Inl (newError ''read failed''))])
             [account1] 2 1 (1 / 2) ''blend'' 2 1) = Threw (newError ''read failed'')
   \<and> printed (runBatchTest
             (quietRemote (10 ^ 18)
                [EstimateReply 1 (Inr 100), NonceReply 1 (Inr 7), ExecuteReply 1 (Inr ''0xe1''),
                 ReadReply 0 (Inl (newError ''read failed''))])
             [account1] 2 1 (1 / 2) ''blend'' 2 1) = None"
  by code_simp

text \<open>
  C5, amended. In blend mode, at every point of the dispatch:

  The error of a write's nonce fetch or submission is caught unless it is a rate-limit
  error that is not a nonce error: the operation returns \<open>null\<close>, \<open>Promise.all(ops)\<close>
  is not rejected by it, and the error is recorded in the log (as a nonce error, the
  write being queued for the retry pass, or as a skipped account).

  A failed fee estimate, a nonce fetch or submission that fails with a rate-limit error
  that is not a nonce error, and a read error that \<open>retryWithBackoff\<close> propagates (any
  error of the third attempt, any error that is not a rate limit) are logged with the
  account and the kind of operation and thrown again: the operation rejects, and the
  first rejection of the batch is the one \<open>Promise.all(ops)\<close> reports.

  The first rejection ends \<open>runBatchTest\<close> with that error and without the report.
  When no operation has rejected, all have resolved and the balance reads after the
  batch succeed, the report is printed.

  In rwr mode no operation rejects, and the report is printed once all operations have
  settled.
\<close>

theorem write_errors_are_caught:
  assumes "exec cfg evs (initDispatch cfg) = Some s" and "b < length (tasks s)"
  shows "(includes_str (errToString err) ''Invalid transaction nonce''
            \<or> \<not> includes_str (errToString err) ''Rate limit reached'' \<longrightarrow>
          (tStage (tasks s ! b) = AwaitNonce \<longrightarrow>
             (\<exists>s'. step cfg (NonceReply b (Inl err)) s = Some s'
                  \<and> rejection s' = rejection s \<and> tStage (tasks s' ! b) = Resolved None
                  \<and> console s'
                      = console s
                        @ [if includes_str (errToString err) ''Invalid transaction nonce''
                           then NonceErrorLogged (address (accObj (tasks s ! b)))
                           else SkippingAccount (address (accObj (tasks s ! b))) err]))
          \<and> (tStage (tasks s ! b) = AwaitExecute n \<longrightarrow>
             (\<exists>s'. step cfg (ExecuteReply b (Inl err)) s = Some s'
                  \<and> rejection s' = rejection s \<and> tStage (tasks s' ! b) = Resolved None
                  \<and> console s'
                      = console s
                        @ [if includes_str (errToString err) ''Invalid transaction nonce''
                           then NonceErrorLogged (address (accObj (tasks s ! b)))
                           else SkippingAccount (address (accObj (tasks s ! b))) err])))
       \<and> (tStage (tasks s ! b) = AwaitEstimate \<longrightarrow>
             (\<exists>s'. step cfg (EstimateReply b (Inl err)) s = Some s'
                  \<and> rejection s' = Some (case rejection s of None \<Rightarrow> err | Some first \<Rightarrow> first)
                  \<and> tStage (tasks s' ! b) = Rejected err
                  \<and> console s'
                      = console s @ [ErrorInOp (address (accObj (tasks s ! b))) WriteOp err]))
       \<and> (\<not> includes_str (errToString err) ''Invalid transaction nonce''
            \<and> includes_str (errToString err) ''Rate limit reached'' \<longrightarrow>
          (tStage (tasks s ! b) = AwaitNonce \<longrightarrow>
             (\<exists>s'. step cfg (NonceReply b (Inl err)) s = Some s'
                  \<and> rejection s' = Some (case rejection s of None \<Rightarrow> err | Some first \<Rightarrow> first)
                  \<and> tStage (tasks s' ! b) = Rejected err
                  \<and> console s'
                      = console s @ [ErrorInOp (address (accObj (tasks s ! b))) WriteOp err]))
          \<and> (tStage (tasks s ! b) = AwaitExecute n \<longrightarrow>
             (\<exists>s'. step cfg (ExecuteReply b (Inl err)) s = Some s'
                  \<and> rejection s' = Some (case rejection s of None \<Rightarrow> err | Some first \<Rightarrow> first)
                  \<and> tStage (tasks s' ! b) = Rejected err
                  \<and> console s'
                      = console s @ [ErrorInOp (address (accObj (tasks s ! b))) WriteOp err])))
       \<and> (tStage (tasks s ! b) = AwaitRead attempt
            \<and> (attempt = 2 \<or> \<not> isRateLimit err) \<longrightarrow>
             (\<exists>s'. step cfg (ReadReply b (Inl err)) s = Some s'
                  \<and> rejection s' = Some (case rejection s of None \<Rightarrow> err | Some first \<Rightarrow> first)
                  \<and> tStage (tasks s' ! b) = Rejected err
                  \<and> console s'
                      = console s @ [ErrorInOp (address (accObj (tasks s ! b))) ReadOp err]))
       \<and> (cfg = blendConfig env accs batchSize bsize readRatio conc nProviders
            \<and> evs = dispatchEvents env
            \<and> promiseAll (map (beforeBalanceReply env)
                 [0..<length (blendUsedAccounts accs batchSize bsize readRatio)]) = Inr before
            \<and> 0 \<le> fst (blendCounts batchSize readRatio) \<and> 0 \<le> snd (blendCounts batchSize readRatio) \<longrightarrow>
             (\<forall>first. rejection s = Some first \<longrightarrow>
                status (runBlend env accs batchSize bsize readRatio conc nProviders calls0) = Threw first
                \<and> printed (runBlend env accs batchSize bsize readRatio conc nProviders calls0) = None)
             \<and> (rejection s = None \<and> allResolved s
                 \<and> promiseAll (map (afterBalanceReply env)
                      [0..<length (blendUsedAccounts accs batchSize bsize readRatio)]) = Inr after \<longrightarrow>
                printed (runBlend env accs batchSize bsize readRatio conc nProviders calls0) \<noteq> None))
       \<and> (rwrSubmitted renv raccs rbatch rbundle rconc = Some rs \<and> allSettled rs \<longrightarrow>
            printed (runRwr renv raccs rbatch rbundle rconc calls1) \<noteq> None)"
proof -
  have wf: "wellFormed cfg s" using wellFormed_exec [OF wellFormed_initDispatch assms(1)] .
  have b: "b < length (opTypes cfg)" using wellFormedD(1) [OF wf] assms(2) by simp
  note sf = submitFailed_cases [OF wf b, of err]
  note sc = submitFailed_console [of cfg b err s]
  note rj = rejectTask_cases [OF wf b, of err]
  have wty: "opTypes cfg ! b = WriteOp"
    if "tStage (tasks s ! b) = AwaitEstimate \<or> tStage (tasks s ! b) = AwaitNonce
             \<or> tStage (tasks s ! b) = AwaitExecute n"
    using write_stage_type [OF wf b that] .
  have caught: "rejection (submitFailed cfg b err s) = rejection s
      \<and> tStage (tasks (submitFailed cfg b err s) ! b) = Resolved None
      \<and> console (submitFailed cfg b err s)
          = console s
            @ [if includes_str (errToString err) ''Invalid transaction nonce''
               then NonceErrorLogged (address (accObj (tasks s ! b)))
               else SkippingAccount (address (accObj (tasks s ! b))) err]"
    if "includes_str (errToString err) ''Invalid transaction nonce''
            \<or> \<not> includes_str (errToString err) ''Rate limit reached''"
       "isActive (tStage (tasks s ! b))"
    using that sf(1,2) sc by auto
  have thrown: "rejection (submitFailed cfg b err s)
        = Some (case rejection s of None \<Rightarrow> err | Some first \<Rightarrow> first)
      \<and> tStage (tasks (submitFailed cfg b err s) ! b) = Rejected err
      \<and> console (submitFailed cfg b err s)
          = console s @ [ErrorInOp (address (accObj (tasks s ! b))) (opTypes cfg ! b) err]"
    if "\<not> includes_str (errToString err) ''Invalid transaction nonce''"
       "includes_str (errToString err) ''Rate limit reached''" "isActive (tStage (tasks s ! b))"
    using that sf(3) sc by simp
  have A: "includes_str (errToString err) ''Invalid transaction nonce''
            \<or> \<not> includes_str (errToString err) ''Rate limit reached'' \<longrightarrow>
          (tStage (tasks s ! b) = AwaitNonce \<longrightarrow>
             (\<exists>s'. step cfg (NonceReply b (Inl err)) s = Some s'
                  \<and> rejection s' = rejection s \<and> tStage (tasks s' ! b) = Resolved None
                  \<and> console s'
                      = console s
                        @ [if includes_str (errToString err) ''Invalid transaction nonce''
                           then NonceErrorLogged (address (accObj (tasks s ! b)))
                           else SkippingAccount (address (accObj (tasks s ! b))) err]))
          \<and> (tStage (tasks s ! b) = AwaitExecute n \<longrightarrow>
             (\<exists>s'. step cfg (ExecuteReply b (Inl err)) s = Some s'
                  \<and> rejection s' = rejection s \<and> tStage (tasks s' ! b) = Resolved None
                  \<and> console s'
                      = console s
                        @ [if includes_str (errToString err) ''Invalid transaction nonce''
                           then NonceErrorLogged (address (accObj (tasks s ! b)))
                           else SkippingAccount (address (accObj (tasks s ! b))) err]))"
    using assms(2) caught by auto
  have B: "tStage (tasks s ! b) = AwaitEstimate \<longrightarrow>
             (\<exists>s'. step cfg (EstimateReply b (Inl err)) s = Some s'
                  \<and> rejection s' = Some (case rejection s of None \<Rightarrow> err | Some first \<Rightarrow> first)
                  \<and> tStage (tasks s' ! b) = Rejected err
                  \<and> console s'
                      = console s @ [ErrorInOp (address (accObj (tasks s ! b))) WriteOp err])"
    using assms(2) rj wty by auto
  have C: "\<not> includes_str (errToString err) ''Invalid transaction nonce''
            \<and> includes_str (errToString err) ''Rate limit reached'' \<longrightarrow>
          (tStage (tasks s ! b) = AwaitNonce \<longrightarrow>
             (\<exists>s'. step cfg (NonceReply b (Inl err)) s = Some s'
                  \<and> rejection s' = Some (case rejection s of None \<Rightarrow> err | Some first \<Rightarrow> first)
                  \<and> tStage (tasks s' ! b) = Rejected err
                  \<and> console s'
                      = console s @ [ErrorInOp (address (accObj (tasks s ! b))) WriteOp err]))
          \<and> (tStage (tasks s ! b) = AwaitExecute n \<longrightarrow>
             (\<exists>s'. step cfg (ExecuteReply b (Inl err)) s = Some s'
                  \<and> rejection s' = Some (case rejection s of None \<Rightarrow> err | Some first \<Rightarrow> first)
                  \<and> tStage (tasks s' ! b) = Rejected err
                  \<and> console s'
                      = console s @ [ErrorInOp (address (accObj (tasks s ! b))) WriteOp err]))"
    using assms(2) thrown wty by auto
  have R: "tStage (tasks s ! b) = AwaitRead attempt
            \<and> (attempt = 2 \<or> \<not> isRateLimit err) \<longrightarrow>
             (\<exists>s'. step cfg (ReadReply b (Inl err)) s = Some s'
                  \<and> rejection s' = Some (case rejection s of None \<Rightarrow> err | Some first \<Rightarrow> first)
                  \<and> tStage (tasks s' ! b) = Rejected err
                  \<and> console s'
                      = console s @ [ErrorInOp (address (accObj (tasks s ! b))) ReadOp err])"
  proof (intro impI, elim conjE)
    assume sg: "tStage (tasks s ! b) = AwaitRead attempt" and e: "attempt = 2 \<or> \<not> isRateLimit err"
    have ty: "opTypes cfg ! b = ReadOp" using read_stage_type(1) [OF wf b] sg by blast
    have nr: "\<not> shouldRetry err attempt 3" using e by (auto simp: shouldRetry_def)
    show "\<exists>s'. step cfg (ReadReply b (Inl err)) s = Some s'
                  \<and> rejection s' = Some (case rejection s of None \<Rightarrow> err | Some first \<Rightarrow> first)
                  \<and> tStage (tasks s' ! b) = Rejected err
                  \<and> console s'
                      = console s @ [ErrorInOp (address (accObj (tasks s ! b))) ReadOp err]"
      using assms(2) sg nr rj ty by simp
  qed
  have D: "cfg = blendConfig env accs batchSize bsize readRatio conc nProviders
            \<and> evs = dispatchEvents env
            \<and> promiseAll (map (beforeBalanceReply env)
                 [0..<length (blendUsedAccounts accs batchSize bsize readRatio)]) = Inr before
            \<and> 0 \<le> fst (blendCounts batchSize readRatio) \<and> 0 \<le> snd (blendCounts batchSize readRatio) \<longrightarrow>
             (\<forall>first. rejection s = Some first \<longrightarrow>
                status (runBlend env accs batchSize bsize readRatio conc nProviders calls0) = Threw first
                \<and> printed (runBlend env accs batchSize bsize readRatio conc nProviders calls0) = None)
             \<and> (rejection s = None \<and> allResolved s
                 \<and> promiseAll (map (afterBalanceReply env)
                      [0..<length (blendUsedAccounts accs batchSize bsize readRatio)]) = Inr after \<longrightarrow>
                printed (runBlend env accs batchSize bsize readRatio conc nProviders calls0) \<noteq> None)"
  proof (intro impI, elim conjE)
    assume c: "cfg = blendConfig env accs batchSize bsize readRatio conc nProviders"
      and ev: "evs = dispatchEvents env"
      and bf: "promiseAll (map (beforeBalanceReply env)
                 [0..<length (blendUsedAccounts accs batchSize bsize readRatio)]) = Inr before"
      and n: "0 \<le> fst (blendCounts batchSize readRatio)" "0 \<le> snd (blendCounts batchSize readRatio)"
    from assms(1) have e: "exec (blendConfig env accs batchSize bsize readRatio conc nProviders)
        (dispatchEvents env)
        (initDispatch (blendConfig env accs batchSize bsize readRatio conc nProviders)) = Some s"
      by (simp add: c ev)
    show "(\<forall>first. rejection s = Some first \<longrightarrow>
                status (runBlend env accs batchSize bsize readRatio conc nProviders calls0) = Threw first
                \<and> printed (runBlend env accs batchSize bsize readRatio conc nProviders calls0) = None)
             \<and> (rejection s = None \<and> allResolved s
                 \<and> promiseAll (map (afterBalanceReply env)
                      [0..<length (blendUsedAccounts accs batchSize bsize readRatio)]) = Inr after \<longrightarrow>
                printed (runBlend env accs batchSize bsize readRatio conc nProviders calls0) \<noteq> None)"
      using runBlend_rejected [OF bf n e] runBlend_completed(1) [OF bf n e] by simp
  qed
  have E: "rwrSubmitted renv raccs rbatch rbundle rconc = Some rs \<and> allSettled rs \<longrightarrow>
            printed (runRwr renv raccs rbatch rbundle rconc calls1) \<noteq> None"
    using runRwr_completed [of renv raccs rbatch rbundle rconc rs calls1] by simp
  show ?thesis using A B C R D E by (intro conjI)
qed

theorem write_errors_are_caught_witness:
  "tStage (tasks (the (exec twoWrites [EstimateReply 0 (Inr 100), NonceReply 0 (Inr 7)]
                             (initDispatch twoWrites))) ! 0) = AwaitExecute 7
   \<and> (\<exists>s'. step twoWrites (ExecuteReply 0 (Inl (newError ''Invalid transaction nonce'')))
               (the (exec twoWrites [EstimateReply 0 (Inr 100), NonceReply 0 (Inr 7)]
                       (initDispatch twoWrites))) = Some s'
          \<and> tStage (tasks s' ! 0) = Resolved None
          \<and> console s' = [NonceErrorLogged ''0xa1''])
   \<and> (\<exists>s'. step twoWrites (ExecuteReply 0 (Inl (newError ''Rate limit reached'')))
               (the (exec twoWrites [EstimateReply 0 (Inr 100), NonceReply 0 (Inr 7)]
                       (initDispatch twoWrites))) = Some s'
          \<and> rejection s' = Some (newError ''Rate limit reached'')
          \<and> console s' = [ErrorInOp ''0xa1'' WriteOp (newError ''Rate limit reached'')])
   \<and> printed (runBlend skippedWrite [account1] 2 1 (1 / 2) 2 1 []) \<noteq> None
   \<and> printed (runRwr oneOfThreeFails [account1] 3 1 2 []) \<noteq> None"
proof -
  let ?evs = "[EstimateReply 0 (Inr 100), NonceReply 0 (Inr 7)]"
  let ?err = "newError ''Invalid transaction nonce''"
  let ?rl = "newError ''Rate limit reached''"
  let ?s = "the (exec twoWrites ?evs (initDispatch twoWrites))"
  have h1: "exec twoWrites ?evs (initDispatch twoWrites) \<noteq> None" by code_simp
  then have s: "exec twoWrites ?evs (initDispatch twoWrites) = Some ?s" by auto
  have h2: "tStage (tasks ?s ! 0) = AwaitExecute 7" by code_simp
  have h3: "0 < length (tasks ?s)" by code_simp
  have h4: "includes_str (errToString ?err) ''Invalid transaction nonce''" by code_simp
  have h5: "\<not> includes_str (errToString ?rl) ''Invalid transaction nonce''"
    "includes_str (errToString ?rl) ''Rate limit reached''" by code_simp+
  have h6: "console ?s = []" "rejection ?s = None" "address (accObj (tasks ?s ! 0)) = ''0xa1''"
    by code_simp+
  from write_errors_are_caught [OF s h3, where err = ?err and n = 7] h2 h4 h6
  have a: "\<exists>s'. step twoWrites (ExecuteReply 0 (Inl ?err)) ?s = Some s'
          \<and> tStage (tasks s' ! 0) = Resolved None \<and> console s' = [NonceErrorLogged ''0xa1'']"
    by auto
  from write_errors_are_caught [OF s h3, where err = ?rl and n = 7] h2 h5 h6
  have a2: "\<exists>s'. step twoWrites (ExecuteReply 0 (Inl ?rl)) ?s = Some s'
          \<and> rejection s' = Some ?rl \<and> console s' = [ErrorInOp ''0xa1'' WriteOp ?rl]"
    by auto
  let ?cfg = "blendConfig skippedWrite [account1] 2 1 (1 / 2) 2 1"
  let ?t = "the (exec ?cfg (dispatchEvents skippedWrite) (initDispatch ?cfg))"
  have k1: "exec ?cfg (dispatchEvents skippedWrite) (initDispatch ?cfg) \<noteq> None" by code_simp
  then have t: "exec ?cfg (dispatchEvents skippedWrite) (initDispatch ?cfg) = Some ?t" by auto
  have k2: "0 < length (tasks ?t)" by code_simp
  have k3: "promiseAll (map (beforeBalanceReply skippedWrite)
              [0..<length (blendUsedAccounts [account1] 2 1 (1 / 2))]) = Inr [(10 ^ 18, 0)]"
    by code_simp
  have k4: "promiseAll (map (afterBalanceReply skippedWrite)
              [0..<length (blendUsedAccounts [account1] 2 1 (1 / 2))]) = Inr [(10 ^ 18, 0)]"
    by code_simp
  have k5: "0 \<le> fst (blendCounts 2 (1 / 2))" "0 \<le> snd (blendCounts 2 (1 / 2))" by code_simp+
  have k6: "rejection ?t = None" by code_simp
  have k7: "allResolved ?t" by code_simp
  let ?r = "the (rwrSubmitted oneOfThreeFails [account1] 3 1 2)"
  have r1: "rwrSubmitted oneOfThreeFails [account1] 3 1 2 \<noteq> None" by code_simp
  then have r: "rwrSubmitted oneOfThreeFails [account1] 3 1 2 = Some ?r" by auto
  have r2: "allSettled ?r" by code_simp
  from write_errors_are_caught [OF t k2, where env = skippedWrite and accs = "[account1]"
      and batchSize = 2 and bsize = 1 and readRatio = "1 / 2" and conc = 2 and nProviders = 1
      and before = "[(10 ^ 18, 0)]" and after = "[(10 ^ 18, 0)]" and ?calls0.0 = "[]"
      and renv = oneOfThreeFails and raccs = "[account1]" and rbatch = 3 and rbundle = 1
      and rconc = 2 and rs = ?r and ?calls1.0 = "[]"] k3 k4 k5 k6 k7 r r2
  have d: "printed (runBlend skippedWrite [account1] 2 1 (1 / 2) 2 1 []) \<noteq> None
      \<and> printed (runRwr oneOfThreeFails [account1] 3 1 2 []) \<noteq> None"
    by simp
  show ?thesis using h2 a a2 d by blast
qed


text \<open>
  C6. As stated (for every run the reported successful read count equals the number of
  reads that returned) the claim fails in rwr mode, where the report takes the reads to
  be two per submitted write: \<open>actualSuccessfulReads = actualSuccessfulWrites * 2\<close>. With
  one account and one write whose balance read after the write throws, the report says
  2 successful reads while only the read before the write returned.
\<close>

theorem rwr_reports_reads_that_failed:
  "map_option actualSuccessfulReads
     (printed (runBatchTest finalReadsFail [account1] 1 1 (1 / 2) ''rwr'' 1 1)) = Some 2
   \<and> readsReturned (runBatchTest finalReadsFail [account1] 1 1 (1 / 2) ''rwr'' 1 1) = 1"
  by code_simp

text \<open>
  C6, amended. The reported successful write count is the number of transaction hashes
  obtained, never the requested count: in blend mode the submissions of the dispatch
  that returned a hash plus the retries that returned one; in rwr mode the submissions
  of the dispatch that returned a hash (a submission that failed adds nothing, whether
  it is retried or given up). In blend mode the reported successful read count is
  \<open>numReads\<close>, and whenever the report is printed (no operation rejected, all resolved)
  that is the number of reads that returned. In rwr mode the reported successful read
  count is twice the successful write count, whatever the reads did.
\<close>

theorem report_counts_hashes_obtained:
  assumes "promiseAll (map (beforeBalanceReply env)
             [0..<length (blendUsedAccounts accs batchSize bsize readRatio)]) = Inr before"
    and "0 \<le> fst (blendCounts batchSize readRatio)" and "0 \<le> snd (blendCounts batchSize readRatio)"
    and "exec (blendConfig env accs batchSize bsize readRatio conc nProviders) (dispatchEvents env)
           (initDispatch (blendConfig env accs batchSize bsize readRatio conc nProviders)) = Some s"
    and "rejection s = None" and "allResolved s"
    and "promiseAll (map (afterBalanceReply env)
             [0..<length (blendUsedAccounts accs batchSize bsize readRatio)]) = Inr after"
  shows "(\<exists>rep. printed (runBlend env accs batchSize bsize readRatio conc nProviders calls0) = Some rep
            \<and> actualSuccessfulWrites rep
                = int (length (concat (map submitted (dispatchEvents env))))
                  + int (length (concat (map (\<lambda>j. retried (retryReply env j))
                                           [0..<length (failedWrites s)])))
            \<and> actualSuccessfulReads rep = fst (blendCounts batchSize readRatio)
            \<and> actualSuccessfulReads rep
                = int (readsReturned (runBlend env accs batchSize bsize readRatio conc nProviders calls0)))
       \<and> (rwrSubmitted renv raccs rbatch rbundle rconc = Some rs \<and> allSettled rs \<longrightarrow>
            (\<exists>rep. printed (runRwr renv raccs rbatch rbundle rconc calls1) = Some rep
               \<and> actualSuccessfulWrites rep
                   = int (length (concat (map rwrSubmittedHash (rwrEvents renv))))
               \<and> actualSuccessfulReads rep = 2 * actualSuccessfulWrites rep))"
proof -
  let ?cfg = "blendConfig env accs batchSize bsize readRatio conc nProviders"
  let ?run = "runBlend env accs batchSize bsize readRatio conc nProviders calls0"
  let ?hs = "writeTxHashes s @ concat (map (\<lambda>j. retried (retryReply env j)) [0..<length (failedWrites s)])"
  have wf: "wellFormed ?cfg s" using wellFormed_exec [OF wellFormed_initDispatch assms(4)] .
  have p: "printed ?run = Some (makeReport ''blend'' (fst (blendCounts batchSize readRatio)) ?hs [])"
    by (rule runBlend_completed(1) [OF assms])
  have h: "writeTxHashes s = concat (map submitted (dispatchEvents env))"
    using exec_hashes [OF assms(4)] by (simp add: initDispatch_hashes)
  have "readsReturned ?run = length (filter (\<lambda>t. isReadResult (tStage t)) (tasks s))"
    by (rule runBlend_completed(2) [OF assms])
  also have "\<dots> = count_list (opTypes ?cfg) ReadOp" by (rule allResolved_reads [OF wf assms(6)])
  also have "\<dots> = nat (fst (blendCounts batchSize readRatio))"
    by (simp add: blendConfig_def Let_def buildOpTypes_reads)
  finally have r: "int (readsReturned ?run) = fst (blendCounts batchSize readRatio)"
    using assms(2) by simp
  have A: "\<exists>rep. printed ?run = Some rep
            \<and> actualSuccessfulWrites rep
                = int (length (concat (map submitted (dispatchEvents env))))
                  + int (length (concat (map (\<lambda>j. retried (retryReply env j))
                                           [0..<length (failedWrites s)])))
            \<and> actualSuccessfulReads rep = fst (blendCounts batchSize readRatio)
            \<and> actualSuccessfulReads rep = int (readsReturned ?run)"
    unfolding p r by (simp add: makeReport_def h)
  have B: "rwrSubmitted renv raccs rbatch rbundle rconc = Some rs \<and> allSettled rs \<longrightarrow>
            (\<exists>rep. printed (runRwr renv raccs rbatch rbundle rconc calls1) = Some rep
               \<and> actualSuccessfulWrites rep
                   = int (length (concat (map rwrSubmittedHash (rwrEvents renv))))
               \<and> actualSuccessfulReads rep = 2 * actualSuccessfulWrites rep)"
  proof (intro impI, elim conjE)
    assume e: "rwrSubmitted renv raccs rbatch rbundle rconc = Some rs" and a: "allSettled rs"
    show "\<exists>rep. printed (runRwr renv raccs rbatch rbundle rconc calls1) = Some rep
               \<and> actualSuccessfulWrites rep
                   = int (length (concat (map rwrSubmittedHash (rwrEvents renv))))
               \<and> actualSuccessfulReads rep = 2 * actualSuccessfulWrites rep"
      unfolding runRwr_completed [OF e a] rwrSubmitted_hashes [OF e]
      by (simp add: makeReport_def Let_def)
  qed
  show ?thesis using A B by (rule conjI)
qed

theorem report_counts_hashes_obtained_witness:
  "map_option actualSuccessfulWrites (printed (runBlend skippedWrite [account1] 2 1 (1 / 2) 2 1 []))
     = Some 0
   \<and> map_option actualSuccessfulReads (printed (runBlend skippedWrite [account1] 2 1 (1 / 2) 2 1 []))
     = Some 1
   \<and> readsReturned (runBlend skippedWrite [account1] 2 1 (1 / 2) 2 1 []) = 1
   \<and> snd (blendCounts 2 (1 / 2)) = 1
   \<and> map_option actualSuccessfulWrites (printed (runRwr oneOfThreeFails [account1] 3 1 2 []))
     = Some 2
   \<and> map_option actualSuccessfulReads (printed (runRwr oneOfThreeFails [account1] 3 1 2 []))
     = Some 4
   \<and> readsReturned (runRwr oneOfThreeFails [account1] 3 1 2 []) = 3"
proof -
  let ?cfg = "blendConfig skippedWrite [account1] 2 1 (1 / 2) 2 1"
  let ?t = "the (exec ?cfg (dispatchEvents skippedWrite) (initDispatch ?cfg))"
  have k1: "exec ?cfg (dispatchEvents skippedWrite) (initDispatch ?cfg) \<noteq> None" by code_simp
  then have t: "exec ?cfg (dispatchEvents skippedWrite) (initDispatch ?cfg) = Some ?t" by auto
  have k3: "promiseAll (map (beforeBalanceReply skippedWrite)
              [0..<length (blendUsedAccounts [account1] 2 1 (1 / 2))]) = Inr [(10 ^ 18, 0)]"
    by code_simp
  have k4: "promiseAll (map (afterBalanceReply skippedWrite)
              [0..<length (blendUsedAccounts [account1] 2 1 (1 / 2))]) = Inr [(10 ^ 18, 0)]"
    by code_simp
  have k5: "0 \<le> fst (blendCounts 2 (1 / 2))" "0 \<le> snd (blendCounts 2 (1 / 2))" by code_simp+
  have k6: "rejection ?t = None" by code_simp
  have k7: "allResolved ?t" by code_simp
  have k8: "length (concat (map submitted (dispatchEvents skippedWrite))) = 0"
    "length (failedWrites ?t) = 0" "fst (blendCounts 2 (1 / 2)) = 1" "snd (blendCounts 2 (1 / 2)) = 1"
    by code_simp+
  let ?r = "the (rwrSubmitted oneOfThreeFails [account1] 3 1 2)"
  have r1: "rwrSubmitted oneOfThreeFails [account1] 3 1 2 \<noteq> None" by code_simp
  then have r: "rwrSubmitted oneOfThreeFails [account1] 3 1 2 = Some ?r" by auto
  have r2: "allSettled ?r" by code_simp
  have r3: "length (concat (map rwrSubmittedHash (rwrEvents oneOfThreeFails))) = 2" by code_simp
  have r4: "readsReturned (runRwr oneOfThreeFails [account1] 3 1 2 []) = 3" by code_simp
  from report_counts_hashes_obtained [OF k3 k5 t k6 k7 k4, where ?calls0.0 = "[]"
      and renv = oneOfThreeFails and raccs = "[account1]" and rbatch = 3 and rbundle = 1
      and rconc = 2 and rs = ?r and ?calls1.0 = "[]"] r r2
  show ?thesis using k8 r3 r4 by auto
qed





end
